theory Spec2Isabelle
  imports Main
begin

section \<open>Text primitives of the host language\<close>

text \<open>
  The program is Python; its texts are values of type \<open>str\<close>. A text is modelled as an
  Isabelle \<open>string\<close> with one \<open>char\<close> per character, which covers the code points
  0 to 255. The character tables below are those of Python on that range:
  \<open>is_space\<close> is \<open>str.isspace\<close> (used alike by \<open>split()\<close>, \<open>strip()\<close>,
  \<open>rstrip()\<close> and the regular expression class \<open>\s\<close>), \<open>lower_char\<close> is
  \<open>str.lower\<close> on one character.
\<close>

definition is_space :: "char \<Rightarrow> bool" where
  "is_space c \<longleftrightarrow> c \<in> set [CHR 0x09, CHR 0x0A, CHR 0x0B, CHR 0x0C, CHR 0x0D,
      CHR 0x1C, CHR 0x1D, CHR 0x1E, CHR 0x1F, CHR 0x20, CHR 0x85, CHR 0xA0]"

definition upper_letters :: string where
  "upper_letters = ''ABCDEFGHIJKLMNOPQRSTUVWXYZ'' @
     [CHR 0xC0, CHR 0xC1, CHR 0xC2, CHR 0xC3, CHR 0xC4, CHR 0xC5, CHR 0xC6, CHR 0xC7,
      CHR 0xC8, CHR 0xC9, CHR 0xCA, CHR 0xCB, CHR 0xCC, CHR 0xCD, CHR 0xCE, CHR 0xCF,
      CHR 0xD0, CHR 0xD1, CHR 0xD2, CHR 0xD3, CHR 0xD4, CHR 0xD5, CHR 0xD6,
      CHR 0xD8, CHR 0xD9, CHR 0xDA, CHR 0xDB, CHR 0xDC, CHR 0xDD, CHR 0xDE]"

definition lower_letters :: string where
  "lower_letters = ''abcdefghijklmnopqrstuvwxyz'' @
     [CHR 0xE0, CHR 0xE1, CHR 0xE2, CHR 0xE3, CHR 0xE4, CHR 0xE5, CHR 0xE6, CHR 0xE7,
      CHR 0xE8, CHR 0xE9, CHR 0xEA, CHR 0xEB, CHR 0xEC, CHR 0xED, CHR 0xEE, CHR 0xEF,
      CHR 0xF0, CHR 0xF1, CHR 0xF2, CHR 0xF3, CHR 0xF4, CHR 0xF5, CHR 0xF6,
      CHR 0xF8, CHR 0xF9, CHR 0xFA, CHR 0xFB, CHR 0xFC, CHR 0xFD, CHR 0xFE]"

definition lower_char :: "char \<Rightarrow> char" where
  "lower_char c = (case map_of (zip upper_letters lower_letters) c of
                     Some l \<Rightarrow> l | None \<Rightarrow> c)"

text \<open>\<open>s.lower()\<close>\<close>

definition lower :: "string \<Rightarrow> string" where
  "lower s = map lower_char s"

text \<open>\<open>s.rstrip()\<close> and \<open>s.strip()\<close> without arguments.\<close>

definition rstrip :: "string \<Rightarrow> string" where
  "rstrip s = rev (dropWhile is_space (rev s))"

definition strip :: "string \<Rightarrow> string" where
  "strip s = dropWhile is_space (rstrip s)"

text \<open>
  \<open>s.split()\<close> without arguments: the maximal runs of non-whitespace characters, in
  order; \<open>split_acc w s\<close> scans \<open>s\<close> with the word \<open>w\<close> read so far.
\<close>

fun split_acc :: "string \<Rightarrow> string \<Rightarrow> string list" where
  "split_acc w [] = (if w = [] then [] else [w])"
| "split_acc w (c # cs) =
     (if is_space c then (if w = [] then split_acc [] cs else w # split_acc [] cs)
      else split_acc (w @ [c]) cs)"

definition split :: "string \<Rightarrow> string list" where
  "split s = split_acc [] s"

text \<open>\<open>sep.join(parts)\<close>\<close>

fun join :: "string \<Rightarrow> string list \<Rightarrow> string" where
  "join sep [] = []"
| "join sep [w] = w"
| "join sep (w # v # ws) = w @ sep @ join sep (v # ws)"

text \<open>\<open>s.startswith(p)\<close> and the substring test \<open>n in s\<close>.\<close>

fun starts_with :: "string \<Rightarrow> string \<Rightarrow> bool" where
  "starts_with [] s = True"
| "starts_with (p # ps) [] = False"
| "starts_with (p # ps) (c # cs) = (p = c \<and> starts_with ps cs)"

fun str_in :: "string \<Rightarrow> string \<Rightarrow> bool" where
  "str_in n [] = (n = [])"
| "str_in n (c # cs) = (starts_with n (c # cs) \<or> str_in n cs)"

text \<open>\<open>s.find(n)\<close>: the index of the first occurrence of \<open>n\<close> in \<open>s\<close>, if any.\<close>

fun find_from :: "string \<Rightarrow> string \<Rightarrow> nat \<Rightarrow> nat option" where
  "find_from n [] i = (if n = [] then Some i else None)"
| "find_from n (c # cs) i = (if starts_with n (c # cs) then Some i else find_from n cs (Suc i))"

definition find_sub :: "string \<Rightarrow> string \<Rightarrow> nat option" where
  "find_sub n s = find_from n s 0"

text \<open>A list of words as \<open>split\<close> produces them: none empty, none holding whitespace.\<close>

definition words_ok :: "string list \<Rightarrow> bool" where
  "words_ok ws \<longleftrightarrow> (\<forall>w \<in> set ws. w \<noteq> [] \<and> (\<forall>c \<in> set w. \<not> is_space c))"

section \<open>Summarizer (agents.py, class SummaryAgent)\<close>

definition summarize :: "string \<Rightarrow> string" where
  "summarize prompt =
     (let clean = join '' '' (split prompt) in
      if clean = [] then []
      else if length clean \<le> 96 then clean
      else rstrip (take 93 clean) @ ''...'')"

section \<open>Outcome classifier (agents.py, class StatusAgent)\<close>

definition decide :: "int \<Rightarrow> string \<Rightarrow> string" where
  "decide return_code output =
     (if return_code \<noteq> 0 then ''Blocked''
      else let normalized = lower output in
        if str_in ''status: testing'' normalized then ''Testing''
        else if str_in ''status: blocked'' normalized then ''Blocked''
        else if str_in ''status: completed'' normalized then ''Completed''
        else ''Completed'')"

text \<open>
  The marker table in the order the classifier consults it, and the search of a text for
  the first marker of a table that occurs in it.
\<close>

definition status_markers :: "(string \<times> string) list" where
  "status_markers = [(''status: testing'', ''Testing''),
                     (''status: blocked'', ''Blocked''),
                     (''status: completed'', ''Completed'')]"

fun first_marker :: "(string \<times> string) list \<Rightarrow> string \<Rightarrow> string option" where
  "first_marker [] text = None"
| "first_marker ((m, s) # ms) text = (if str_in m text then Some s else first_marker ms text)"

subsection \<open>The patterns of \<open>extract_session_id\<close>\<close>

text \<open>
  \<open>extract_session_id\<close> searches the output with eight regular expressions under
  \<open>re.IGNORECASE\<close>. They use only literals, greedy repetitions of a character class,
  \<open>\b\<close> and one capture group, so a pattern is a list of such items. The character
  classes are given with both letter cases, as the flag makes them; \<open>is_word\<close> is
  \<open>\w\<close> on the code points 0 to 255.
\<close>

definition letters :: string where
  "letters = ''abcdefghijklmnopqrstuvwxyzABCDEFGHIJKLMNOPQRSTUVWXYZ''"
definition digits10 :: string where
  "digits10 = ''0123456789''"

definition id_char :: "char \<Rightarrow> bool" where
  "id_char c \<longleftrightarrow> c \<in> set (letters @ digits10 @ ''._:-'')"
definition key_char :: "char \<Rightarrow> bool" where
  "key_char c \<longleftrightarrow> c \<in> set (letters @ digits10 @ ''._-'')"
definition hex_char :: "char \<Rightarrow> bool" where
  "hex_char c \<longleftrightarrow> c \<in> set ''0123456789abcdefABCDEF''"
definition hex_dash_char :: "char \<Rightarrow> bool" where
  "hex_dash_char c \<longleftrightarrow> c \<in> set ''0123456789abcdefABCDEF-''"
definition sep_char :: "char \<Rightarrow> bool" where
  "sep_char c \<longleftrightarrow> c = CHR ''_'' \<or> is_space c \<or> c = CHR ''-''"
definition assign_char :: "char \<Rightarrow> bool" where
  "assign_char c \<longleftrightarrow> c = CHR '':'' \<or> c = CHR ''=''"

definition is_word :: "char \<Rightarrow> bool" where
  "is_word c \<longleftrightarrow> c \<in> set (letters @ digits10 @ ''_'' @
     [CHR 0xAA, CHR 0xB2, CHR 0xB3, CHR 0xB5, CHR 0xB9, CHR 0xBA, CHR 0xBC, CHR 0xBD, CHR 0xBE,
      CHR 0xDF, CHR 0xFF] @ upper_letters @ lower_letters)"

text \<open>
  \<open>Lit l\<close> is literal text compared ignoring case, \<open>Rep cls lo hi\<close> the greedy
  repetition \<open>cls{lo,hi}\<close> (\<open>hi = None\<close>: unbounded), \<open>WordB\<close> is \<open>\b\<close>,
  \<open>GroupOpen\<close> and \<open>GroupClose\<close> delimit capture group 1.
\<close>

datatype item = Lit string | Rep "char \<Rightarrow> bool" nat "nat option" | WordB | GroupOpen | GroupClose

text \<open>
  The matcher is the backtracking one of \<open>re\<close>: \<open>match_items\<close> matches the items at
  the start of \<open>s\<close> (\<open>prev\<close> is the character before it, for \<open>\b\<close>), trying the
  longest repetition first and shorter ones when the rest of the pattern fails, and returns
  the text of group 1 of the first way that succeeds. \<open>search_from\<close> is \<open>re.search\<close>:
  the leftmost position with a match.
\<close>

type_synonym capture = "bool \<times> string"

definition consume :: "capture \<Rightarrow> string \<Rightarrow> capture" where
  "consume cap x = (if fst cap then (True, snd cap @ x) else cap)"

definition last_char :: "char option \<Rightarrow> string \<Rightarrow> char option" where
  "last_char prev x = (if x = [] then prev else Some (last x))"

definition at_boundary :: "char option \<Rightarrow> string \<Rightarrow> bool" where
  "at_boundary prev s \<longleftrightarrow>
     (case prev of None \<Rightarrow> False | Some c \<Rightarrow> is_word c) \<noteq>
     (case s of [] \<Rightarrow> False | c # _ \<Rightarrow> is_word c)"

fun lit_match :: "string \<Rightarrow> string \<Rightarrow> bool" where
  "lit_match [] s = True"
| "lit_match (p # ps) [] = False"
| "lit_match (p # ps) (c # cs) = (if lower_char c = lower_char p then lit_match ps cs else False)"

fun counts_down :: "nat \<Rightarrow> nat \<Rightarrow> nat list" where
  "counts_down 0 lo = (if lo = 0 then [0] else [])"
| "counts_down (Suc n) lo = (if Suc n < lo then [] else Suc n # counts_down n lo)"

fun first_some :: "'a option list \<Rightarrow> 'a option" where
  "first_some [] = None"
| "first_some (None # xs) = first_some xs"
| "first_some (Some x # xs) = Some x"

fun match_items :: "item list \<Rightarrow> char option \<Rightarrow> string \<Rightarrow> capture \<Rightarrow> string option" where
  "match_items [] prev s cap = Some (snd cap)"
| "match_items (Lit l # items) prev s cap =
     (if lit_match l s
      then match_items items (last_char prev (take (length l) s)) (drop (length l) s)
             (consume cap (take (length l) s))
      else None)"
| "match_items (Rep cls lo hi # items) prev s cap =
     (let avail = length (takeWhile cls s);
          most = (case hi of None \<Rightarrow> avail | Some h \<Rightarrow> min h avail)
      in first_some (map (\<lambda>n. match_items items (last_char prev (take n s)) (drop n s)
                                  (consume cap (take n s)))
                         (counts_down most lo)))"
| "match_items (WordB # items) prev s cap =
     (if at_boundary prev s then match_items items prev s cap else None)"
| "match_items (GroupOpen # items) prev s cap = match_items items prev s (True, [])"
| "match_items (GroupClose # items) prev s cap = match_items items prev s (False, snd cap)"

fun search_from :: "item list \<Rightarrow> char option \<Rightarrow> string \<Rightarrow> string option" where
  "search_from p prev [] = match_items p prev [] (False, [])"
| "search_from p prev (c # cs) =
     (case match_items p prev (c # cs) (False, []) of
        Some g \<Rightarrow> Some g
      | None \<Rightarrow> search_from p (Some c) cs)"

definition re_search :: "item list \<Rightarrow> string \<Rightarrow> string option" where
  "re_search p s = search_from p None s"

text \<open>The pattern list of \<open>extract_session_id\<close>, in the order of the source.\<close>

definition session_patterns :: "item list list" where
  "session_patterns =
    [[Lit [CHR 0x22], Lit ''session_id'', Lit [CHR 0x22], Rep is_space 0 None, Lit '':'', Rep is_space 0 None,
      Lit [CHR 0x22], GroupOpen, Rep id_char 1 None, GroupClose, Lit [CHR 0x22]],
     [Lit [CHR 0x27], Lit ''session_id'', Lit [CHR 0x27], Rep is_space 0 None, Lit '':'', Rep is_space 0 None,
      Lit [CHR 0x27], GroupOpen, Rep id_char 1 None, GroupClose, Lit [CHR 0x27]],
     [Lit ''/sessions/'', GroupOpen, Rep id_char 1 None, GroupClose],
     [WordB, Lit ''codex'', Rep is_space 1 None, Lit ''resume'', Rep is_space 1 None,
      GroupOpen, Rep id_char 1 None, GroupClose],
     [WordB, Lit ''resume'', Rep is_space 1 None,
      GroupOpen, Rep hex_char 8 (Some 8), Lit ''-'', Rep hex_dash_char 27 None, GroupClose],
     [Lit ''session'', Rep sep_char 0 (Some 1), Lit ''id'', Rep is_space 0 None,
      Rep assign_char 1 (Some 1), Rep is_space 0 None, GroupOpen, Rep key_char 1 None, GroupClose],
     [Lit ''conversation'', Rep sep_char 0 (Some 1), Lit ''id'', Rep is_space 0 None,
      Rep assign_char 1 (Some 1), Rep is_space 0 None, GroupOpen, Rep key_char 1 None, GroupClose],
     [WordB, Lit ''session'', Rep is_space 1 None, GroupOpen, Rep id_char 8 None, GroupClose]]"

fun first_match :: "item list list \<Rightarrow> string \<Rightarrow> string" where
  "first_match [] output = []"
| "first_match (p # ps) output =
     (case re_search p output of Some g \<Rightarrow> strip g | None \<Rightarrow> first_match ps output)"

definition extract_session_id :: "string \<Rightarrow> string" where
  "extract_session_id output = first_match session_patterns output"

section \<open>Execution engine (agents.py, class ExecutionAgent)\<close>

text \<open>
  \<open>s.replace(old, new)\<close>: the occurrences of \<open>old\<close> are replaced from left to right
  without overlap; with an empty \<open>old\<close>, \<open>new\<close> is put around every character.
\<close>

fun replace :: "string \<Rightarrow> string \<Rightarrow> string \<Rightarrow> string" where
  "replace old new [] = (if old = [] then new else [])"
| "replace old new (c # cs) =
     (if old = [] then new @ c # replace old new cs
      else if starts_with old (c # cs) then new @ replace old new (drop (length old - 1) cs)
      else c # replace old new cs)"

text \<open>\<open>a or b\<close> on texts: \<open>a\<close> unless it is empty.\<close>

definition or_else :: "string \<Rightarrow> string \<Rightarrow> string" where
  "or_else a b = (if a \<noteq> [] then a else b)"

text \<open>\<open>str(n)\<close> for an integer, as the f-string of the terminal-mode message formats it.\<close>

fun show_nat :: "nat \<Rightarrow> string" where
  "show_nat n = (if n < 10 then [''0123456789'' ! n]
                 else show_nat (n div 10) @ [''0123456789'' ! (n mod 10)])"

definition show_int :: "int \<Rightarrow> string" where
  "show_int i = (if i < 0 then ''-'' @ show_nat (nat (- i)) else show_nat (nat i))"

definition escape :: "string \<Rightarrow> string" where
  \<open>escape prompt = replace ''"'' [CHR 0x5C, CHR 0x22] prompt\<close>

definition is_noninteractive_agent_command :: "string \<Rightarrow> bool" where
  "is_noninteractive_agent_command text =
     (let tokens = split text in
      if tokens = [] then False
      else ''exec'' \<in> set tokens \<or> ''review'' \<in> set tokens)"

definition command_prefers_tty :: "string \<Rightarrow> bool" where
  "command_prefers_tty built_command =
     (let text = lower (strip built_command) in
      if is_noninteractive_agent_command text then False
      else length (split text) = 1)"

record ExecutionAgent =
  timeout_seconds :: int
  auto_close_after_task :: bool

text \<open>The constructor, with its default timeout of \<open>60 * 60\<close> seconds.\<close>

definition new_ExecutionAgent :: "bool \<Rightarrow> ExecutionAgent" where
  "new_ExecutionAgent auto_close = \<lparr>timeout_seconds = 60 * 60, auto_close_after_task = auto_close\<rparr>"

definition build_command :: "ExecutionAgent \<Rightarrow> string \<Rightarrow> string \<Rightarrow> string \<Rightarrow> string" where
  \<open>build_command self command prompt session_id =
     (let escaped_prompt = escape prompt in
      if str_in ''{prompt}'' command then
        (let built = replace ''{prompt}'' escaped_prompt command in
         if str_in ''{session_id}'' built then replace ''{session_id}'' session_id built
         else if session_id \<noteq> [] then built @ '' resume '' @ session_id
         else built)
      else if auto_close_after_task self \<and>
              \<not> is_noninteractive_agent_command (lower (strip command)) then
        (if session_id \<noteq> []
         then command @ '' exec resume '' @ session_id @ '' "'' @ escaped_prompt @ ''"''
         else command @ '' exec "'' @ escaped_prompt @ ''"'')
      else if session_id \<noteq> []
        then command @ '' resume '' @ session_id @ '' "'' @ escaped_prompt @ ''"''
      else command @ '' "'' @ escaped_prompt @ ''"'')\<close>

definition truncate_text :: "string \<Rightarrow> string" where
  "truncate_text text = (if length text \<le> 49000 then text
                    else take (49000 - 15) text @ [CHR 0x0A] @ ''...[truncated]'')"

definition pick_session_id :: "string \<Rightarrow> string \<Rightarrow> string \<Rightarrow> string" where
  "pick_session_id previous latest fallback =
     (if latest \<noteq> [] \<and> latest \<noteq> previous then latest
      else if fallback \<noteq> [] then fallback
      else latest)"

text \<open>The list \<open>patterns\<close> of \<open>_requires_tty_fallback\<close>.\<close>

definition tty_patterns :: "string list" where
  "tty_patterns = [''stdin is not a terminal'', ''stdin is not a tty'',
                   ''stdout is not a terminal'', ''stdout is not a tty'',
                   ''not a terminal'', ''not a tty'']"

definition requires_tty_fallback :: "int \<Rightarrow> string \<Rightarrow> bool" where
  "requires_tty_fallback return_code output =
     (if return_code = 0 then False
      else let normalized = lower output
           in list_ex (\<lambda>pattern. str_in pattern normalized) tty_patterns)"

text \<open>
  The result of one invocation. Below, a primed name (\<open>session_id'\<close>, \<open>status'\<close>,
  \<open>thoughts'\<close>) is the variable of that name in the source, the unprimed one the field.
\<close>

record ExecutionResult =
  status :: string
  thoughts :: string
  session_id :: string
  return_code :: int

text \<open>
  What the engine cannot compute is its environment: the subprocess and the session log
  store under \<open>~/.codex/sessions\<close>. One call of \<open>run\<close> sees it through the record
  \<open>env\<close>. A subprocess either ends with a return code, runs into the timeout it was
  given (\<open>subprocess.TimeoutExpired\<close>), or cannot be started (\<open>OSError\<close>).
\<close>

datatype 'a outcome = Exited 'a | TimeoutExpired | SpawnFailed

datatype error = OSError | ValueError string

record env =
  latest_before :: string
  streaming :: "string \<Rightarrow> int \<Rightarrow> (int \<times> string list) outcome"
  terminal :: "string \<Rightarrow> int \<Rightarrow> int outcome"
  latest_after :: string
  assistant_message :: "string \<Rightarrow> string"

text \<open>
  \<open>latest_before\<close> and \<open>latest_after\<close> are the results of \<open>_latest_codex_session_id()\<close>
  before and after the subprocess, \<open>assistant_message\<close> is
  \<open>_latest_codex_assistant_message\<close>; \<open>streaming built t\<close> is the behaviour of the
  captured subprocess for the command line \<open>built\<close> under the timeout \<open>t\<close> (its return
  code and the lines read from its output), \<open>terminal built t\<close> that of the subprocess
  on the terminal. The calls that start a subprocess are recorded as \<open>spawn\<close> events.
\<close>

datatype spawn = Capture string | Interactive string

definition rstrip_newline :: "string \<Rightarrow> string" where
  "rstrip_newline line = rev (dropWhile (\<lambda>c. c = CHR 0x0A) (rev line))"

text \<open>The text \<open>output\<close> that \<open>_run_streaming\<close> builds from the lines it collected.\<close>

definition buffered_output :: "string list \<Rightarrow> string" where
  "buffered_output lines =
     or_else (strip (join [CHR 0x0A] (map rstrip_newline lines))) ''(No output)''"

definition run_streaming :: "ExecutionAgent \<Rightarrow> env \<Rightarrow> string \<Rightarrow> (int \<times> string) outcome" where
  "run_streaming self e built =
     (case streaming e built (timeout_seconds self) of
        Exited (return_code', lines) \<Rightarrow> Exited (return_code', buffered_output lines)
      | TimeoutExpired \<Rightarrow> TimeoutExpired
      | SpawnFailed \<Rightarrow> SpawnFailed)"

definition run_with_tty ::
  "ExecutionAgent \<Rightarrow> env \<Rightarrow> string \<Rightarrow> string \<Rightarrow> string \<Rightarrow> error + ExecutionResult" where
  "run_with_tty self e built session_id' pre_session_id =
     (case terminal e built (timeout_seconds self) of
        Exited returncode \<Rightarrow>
          (let post_session_id = latest_after e;
               detected_session_id = pick_session_id pre_session_id post_session_id session_id';
               output0 = (if returncode = 0 then ''Command completed in terminal mode.''
                          else ''Command exited with code '' @ show_int returncode @
                               '' in terminal mode.'');
               output = (if detected_session_id \<noteq> []
                         then output0 @ [CHR 0x0A] @ ''Session ID: '' @ detected_session_id
                         else output0);
               status' = decide returncode output;
               thoughts' = (if detected_session_id \<noteq> []
                           then or_else (assistant_message e detected_session_id) output
                           else output)
           in Inr \<lparr>status = status', thoughts = truncate_text thoughts',
                    session_id = detected_session_id, return_code = returncode\<rparr>)
      | TimeoutExpired \<Rightarrow>
          Inr \<lparr>status = ''Blocked'',
                thoughts = ''Command timed out in TTY mode. Marked as Blocked.'',
                session_id = session_id', return_code = 124\<rparr>
      | SpawnFailed \<Rightarrow> Inl OSError)"

definition run_traced ::
  "ExecutionAgent \<Rightarrow> env \<Rightarrow> string \<Rightarrow> string \<Rightarrow> string \<Rightarrow>
     spawn list \<times> (error + ExecutionResult)" where
  "run_traced self e command prompt session_id' =
     (let built = build_command self command prompt session_id';
          pre_session_id = latest_before e in
      if command_prefers_tty built
      then ([Interactive built], run_with_tty self e built session_id' pre_session_id)
      else
        (case run_streaming self e built of
           Exited (return_code', output) \<Rightarrow>
             if requires_tty_fallback return_code' output
             then ([Capture built, Interactive built],
                   run_with_tty self e built session_id' pre_session_id)
             else
               (let status' = decide return_code' output;
                    extracted0 = extract_session_id output;
                    post_session_id = latest_after e;
                    extracted_session =
                      (if extracted0 = [] \<and> post_session_id \<noteq> [] \<and>
                          post_session_id \<noteq> pre_session_id
                       then post_session_id else extracted0);
                    session0 = or_else extracted_session session_id';
                    session_for_message =
                      (if session0 = [] \<and> post_session_id \<noteq> [] \<and>
                          post_session_id \<noteq> pre_session_id
                       then post_session_id else session0);
                    thoughts' = (if session_for_message \<noteq> []
                                then or_else (assistant_message e session_for_message) output
                                else output)
                in ([Capture built],
                    Inr \<lparr>status = status', thoughts = truncate_text thoughts',
                          session_id = or_else extracted_session session_id',
                          return_code = return_code'\<rparr>))
         | TimeoutExpired \<Rightarrow>
             ([Capture built],
              Inr \<lparr>status = ''Blocked'',
                    thoughts = truncate_text ''Command timed out. Marked as Blocked.'',
                    session_id = or_else [] session_id', return_code = 124\<rparr>)
         | SpawnFailed \<Rightarrow> ([Capture built], Inl OSError)))"

text \<open>\<open>ExecutionAgent.run\<close>: the result, without the record of the subprocesses.\<close>

definition run ::
  "ExecutionAgent \<Rightarrow> env \<Rightarrow> string \<Rightarrow> string \<Rightarrow> string \<Rightarrow> error + ExecutionResult" where
  "run self e command prompt session_id' = snd (run_traced self e command prompt session_id')"

section \<open>Queue store (google_sheet.py)\<close>

text \<open>
  The sheet is a grid of text cells. A row maps a column letter to the text of its cell,
  the empty text for a blank cell; the sheet is the list of its rows down to the last
  one that was ever written, row \<open>r\<close> at index \<open>r - 1\<close>, and every row below is blank.
  A cell holds the text that was written to it. Task rows start at row 2.
\<close>

type_synonym row = "char \<Rightarrow> string"
type_synonym sheet = "row list"

definition TASK_START_ROW :: nat where
  "TASK_START_ROW = 2"

definition blank_row :: row where
  "blank_row = (\<lambda>column. [])"

definition get_row :: "sheet \<Rightarrow> nat \<Rightarrow> row" where
  "get_row sh r = (if 1 \<le> r \<and> r \<le> length sh then sh ! (r - 1) else blank_row)"

definition put_row :: "sheet \<Rightarrow> nat \<Rightarrow> row \<Rightarrow> sheet" where
  "put_row sh r cells = (sh @ replicate (r - length sh) blank_row)[r - 1 := cells]"

definition single_line :: "string \<Rightarrow> string" where
  "single_line v = (if v = [] then [] else join '' '' (split v))"

text \<open>\<open>_join_prefix\<close> of pipeline.py.\<close>

definition join_prefix :: "string \<Rightarrow> string \<Rightarrow> string" where
  "join_prefix prefix prompt =
     (let prefix' = strip prefix; prompt' = strip prompt in
      if prefix' = [] then prompt'
      else if prompt' = [] then prefix'
      else prefix' @ '' '' @ prompt')"

record RowState =
  prompt :: string
  ticket :: string
  status :: string
  user_input :: string
  thoughts :: string
  session_id :: string

definition read_row :: "sheet \<Rightarrow> nat \<Rightarrow> RowState" where
  "read_row sh r =
     (let row_values = get_row sh r in
      \<lparr>prompt = row_values CHR ''B'', ticket = row_values CHR ''C'',
       status = row_values CHR ''D'', user_input = row_values CHR ''E'',
       thoughts = row_values CHR ''F'', session_id = row_values CHR ''G''\<rparr>)"

text \<open>
  \<open>update_row_columns\<close> writes the named cells of one row and no other; the update is a
  list of pairs of a column letter and a text, in the order of the dictionary.
\<close>

fun update_row_columns :: "sheet \<Rightarrow> nat \<Rightarrow> (char \<times> string) list \<Rightarrow> sheet" where
  "update_row_columns sh r [] = sh"
| "update_row_columns sh r ((column, v) # updates) =
     update_row_columns (put_row sh r ((get_row sh r)(column := v))) r updates"

text \<open>The cells B to G of a row replaced by those of another row, or cleared.\<close>

definition set_b_to_g :: "row \<Rightarrow> row \<Rightarrow> row" where
  "set_b_to_g cells src = (\<lambda>column. if column \<in> set ''BCDEFG'' then src column else cells column)"

fun write_b_to_g :: "sheet \<Rightarrow> nat \<Rightarrow> row list \<Rightarrow> sheet" where
  "write_b_to_g sh r [] = sh"
| "write_b_to_g sh r (src # rest) =
     write_b_to_g (put_row sh r (set_b_to_g (get_row sh r) src)) (Suc r) rest"

definition clear_b_to_g :: "sheet \<Rightarrow> nat \<Rightarrow> sheet" where
  "clear_b_to_g sh r = put_row sh r (set_b_to_g (get_row sh r) blank_row)"

definition row_in_use :: "row \<Rightarrow> bool" where
  "row_in_use item \<longleftrightarrow> item CHR ''A'' \<noteq> [] \<or> list_ex (\<lambda>column. item column \<noteq> []) ''BCDEFG''"

definition archive_and_shift :: "sheet \<Rightarrow> nat \<Rightarrow> sheet" where
  "archive_and_shift sh r =
     (let state = read_row sh r;
          sh1 = update_row_columns sh r
                  [(CHR ''J'', ticket state), (CHR ''K'', prompt state),
                   (CHR ''L'', single_line (thoughts state))];
          tail_values = drop r sh1;
          b_to_g_rows = takeWhile row_in_use tail_values
      in if b_to_g_rows \<noteq> []
         then (let destination_end_row = r + length b_to_g_rows - 1;
                   clear_row = destination_end_row + 1
               in clear_b_to_g (write_b_to_g sh1 r b_to_g_rows) clear_row)
         else clear_b_to_g sh1 r)"

section \<open>Queue driver (pipeline.py, class MintPipeline)\<close>

record RunSummary =
  executed_rows :: nat
  archived_rows :: nat
  stopped_at_row :: nat

text \<open>
  The state of the loop of \<open>MintPipeline.run\<close>: the sheet, the loop variables
  \<open>row_number\<close>, \<open>executed_rows\<close> and \<open>archived_rows\<close> (here \<open>executed\<close> and
  \<open>archived\<close>), and the calls made so far to the sheet client's writing operations and to
  the execution engine, in order.
\<close>

datatype event =
    ArchiveAndShift nat
  | UpdateRowColumns nat "(char \<times> string) list"
  | RunAgent string string string

record loop_state =
  cur_sheet :: sheet
  row_number :: nat
  executed :: nat
  archived :: nat
  events :: "event list"

datatype step_result = Return RunSummary | Continue loop_state | Raise error loop_state

text \<open>The dictionary \<open>updates\<close> built from the result of an invocation.\<close>

definition result_updates :: "ExecutionResult \<Rightarrow> (char \<times> string) list" where
  "result_updates result =
     [(CHR ''D'', ExecutionResult.status result), (CHR ''F'', ExecutionResult.thoughts result)] @
     (if ExecutionResult.session_id result \<noteq> []
      then [(CHR ''G'', ExecutionResult.session_id result)] else [])"

text \<open>
  One iteration of the \<open>while True\<close> loop. \<open>agent command prompt session_id\<close> is the
  call \<open>execution_agent.run\<close> of this iteration.
\<close>

definition step ::
  "(string \<Rightarrow> string \<Rightarrow> string \<Rightarrow> error + ExecutionResult) \<Rightarrow> string \<Rightarrow> string \<Rightarrow>
     loop_state \<Rightarrow> step_result" where
  "step agent prefix command st =
     (let sh = cur_sheet st; n = row_number st; row = read_row sh n in
      if prompt row = [] then
        Return \<lparr>executed_rows = executed st, archived_rows = archived st, stopped_at_row = n\<rparr>
      else
        let status' = strip (or_else (status row) []) in
        if status' = ''Approved'' then
          Continue (st\<lparr>cur_sheet := archive_and_shift sh n,
                       archived := archived st + 1,
                       events := events st @ [ArchiveAndShift n]\<rparr>)
        else if ticket row = [] then
          (let summary = summarize (prompt row);
               first_update = [(CHR ''C'', summary), (CHR ''D'', ''Ongoing'')];
               sh1 = update_row_columns sh n first_update;
               sent = join_prefix prefix (prompt row)
           in case agent command sent [] of
                Inl err \<Rightarrow>
                  Raise err (st\<lparr>cur_sheet := sh1,
                                 events := events st @ [UpdateRowColumns n first_update,
                                                        RunAgent command sent []]\<rparr>)
              | Inr result \<Rightarrow>
                  Continue (st\<lparr>cur_sheet := update_row_columns sh1 n (result_updates result),
                               row_number := n + 1,
                               executed := executed st + 1,
                               events := events st @ [UpdateRowColumns n first_update,
                                                      RunAgent command sent [],
                                                      UpdateRowColumns n (result_updates result)]\<rparr>))
        else if status' = ''Ongoing'' then
          (let resume_prompt = or_else (strip (or_else (user_input row) [])) (prompt row);
               sent = join_prefix prefix resume_prompt
           in case agent command sent (session_id row) of
                Inl err \<Rightarrow>
                  Raise err (st\<lparr>events := events st @ [RunAgent command sent (session_id row)]\<rparr>)
              | Inr result \<Rightarrow>
                  Continue (st\<lparr>cur_sheet := update_row_columns sh n (result_updates result),
                               row_number := n + 1,
                               executed := executed st + 1,
                               events := events st @ [RunAgent command sent (session_id row),
                                                      UpdateRowColumns n (result_updates result)]\<rparr>))
        else Continue (st\<lparr>row_number := n + 1\<rparr>))"

text \<open>The state in which an iteration leaves the loop, when it does not return.\<close>

fun result_state :: "step_result \<Rightarrow> loop_state option" where
  "result_state (Return summary) = None"
| "result_state (Continue st) = Some st"
| "result_state (Raise err st) = Some st"

text \<open>The calls recorded when an iteration ends, and a row of the sheet as it is then.\<close>

definition events_after :: "step_result \<Rightarrow> event list option" where
  "events_after r = map_option events (result_state r)"

definition row_after :: "step_result \<Rightarrow> nat \<Rightarrow> RowState option" where
  "row_after r n = map_option (\<lambda>st. read_row (cur_sheet st) n) (result_state r)"

text \<open>
  The loop. It has no bound of its own, so it is a partial function: \<open>None\<close> is a run
  that never returns. \<open>agents k\<close> is the behaviour of the execution engine at its
  invocation number \<open>k\<close>, counted from 0.
\<close>

partial_function (option) run_loop ::
  "(nat \<Rightarrow> string \<Rightarrow> string \<Rightarrow> string \<Rightarrow> error + ExecutionResult) \<Rightarrow> string \<Rightarrow> string \<Rightarrow>
     loop_state \<Rightarrow> (error + RunSummary) option" where
  "run_loop agents prefix command st =
     (case step (agents (executed st)) prefix command st of
        Return summary \<Rightarrow> Some (Inr summary)
      | Raise err st' \<Rightarrow> Some (Inl err)
      | Continue st' \<Rightarrow> run_loop agents prefix command st')"

text \<open>
  Values for concrete runs: the loop state at the start of a run, a task row with the
  given prompt, ticket, status, user input and session id (column A and the thoughts
  blank), an invocation result, and an execution engine that returns a given result
  whatever it is asked.
\<close>

definition start_state :: "sheet \<Rightarrow> loop_state" where
  "start_state sh =
     \<lparr>cur_sheet = sh, row_number = TASK_START_ROW, executed = 0, archived = 0, events = []\<rparr>"

definition task_row :: "string \<Rightarrow> string \<Rightarrow> string \<Rightarrow> string \<Rightarrow> string \<Rightarrow> row" where
  "task_row p t s u sid =
     blank_row(CHR ''B'' := p, CHR ''C'' := t, CHR ''D'' := s, CHR ''E'' := u, CHR ''G'' := sid)"

definition completed_result :: ExecutionResult where
  "completed_result =
     \<lparr>ExecutionResult.status = ''Completed'', ExecutionResult.thoughts = ''ok'',
      ExecutionResult.session_id = ''s1'', return_code = 0\<rparr>"

definition fixed_agent ::
  "ExecutionResult \<Rightarrow> string \<Rightarrow> string \<Rightarrow> string \<Rightarrow> error + ExecutionResult" where
  "fixed_agent result command p sid = Inr result"

text \<open>
  \<open>MintPipeline.run\<close> after it has read the properties: an empty command is refused,
  otherwise the loop starts at the first task row with both counters at zero.
\<close>

definition pipeline_run ::
  "(nat \<Rightarrow> string \<Rightarrow> string \<Rightarrow> string \<Rightarrow> error + ExecutionResult) \<Rightarrow> string \<Rightarrow> string \<Rightarrow>
     sheet \<Rightarrow> (error + RunSummary) option" where
  \<open>pipeline_run agents prefix command sh =
     (if command = []
      then Some (Inl (ValueError
             ''Command is empty. Fill A5 in the sheet or run: mint setup command "<cmd>"''))
      else run_loop agents prefix command (start_state sh))\<close>

section \<open>Facts about the text primitives\<close>



lemma length_rstrip_le: "length (rstrip s) \<le> length s"
  unfolding rstrip_def by (metis length_dropWhile_le length_rev)

lemma split_acc_blank: "(\<forall>c \<in> set s. is_space c) \<Longrightarrow> split_acc [] s = []"
  by (induction s) auto

lemma words_ok_Nil: "words_ok []"
  by (simp add: words_ok_def)

lemma words_ok_Cons:
  "words_ok (w # ws) \<longleftrightarrow> w \<noteq> [] \<and> (\<forall>c \<in> set w. \<not> is_space c) \<and> words_ok ws"
  by (auto simp: words_ok_def)

lemma split_acc_words_ok:
  "(\<forall>c \<in> set acc. \<not> is_space c) \<Longrightarrow> words_ok (split_acc acc s)"
proof (induction s arbitrary: acc)
  case Nil
  then show ?case by (simp add: words_ok_Nil words_ok_Cons)
next
  case (Cons c s)
  show ?case
  proof (cases "is_space c")
    case True
    have "words_ok (split_acc [] s)" by (rule Cons.IH) simp
    with True Cons.prems show ?thesis by (simp add: words_ok_Cons)
  next
    case False
    with Cons.prems have "\<forall>d \<in> set (acc @ [c]). \<not> is_space d" by simp
    then have "words_ok (split_acc (acc @ [c]) s)" by (rule Cons.IH)
    with False show ?thesis by simp
  qed
qed

lemma split_acc_word:
  "(\<forall>c \<in> set w. \<not> is_space c) \<Longrightarrow> split_acc acc (w @ s) = split_acc (acc @ w) s"
  by (induction w arbitrary: acc) auto

lemma split_join:
  "words_ok ws \<Longrightarrow> split (join '' '' ws) = ws"
proof (induction ws rule: induct_list012)
  case 1
  then show ?case by (simp add: split_def)
next
  case (2 w)
  then have "split_acc [] (w @ []) = split_acc ([] @ w) []"
    by (intro split_acc_word) (simp add: words_ok_Cons)
  with 2 show ?case by (simp add: split_def words_ok_Cons)
next
  case (3 w v ws)
  then have w: "w \<noteq> []" "\<forall>c \<in> set w. \<not> is_space c" and rest: "words_ok (v # ws)"
    by (auto simp: words_ok_Cons)
  have "split_acc [] (w @ '' '' @ join '' '' (v # ws)) = split_acc ([] @ w) ('' '' @ join '' '' (v # ws))"
    using w(2) by (rule split_acc_word)
  also have "\<dots> = w # split_acc [] (join '' '' (v # ws))"
    using w(1) by (simp add: is_space_def)
  also have "\<dots> = w # v # ws"
    using 3 rest by (simp add: split_def)
  finally show ?case by (simp add: split_def)
qed

lemma split_words_ok: "words_ok (split p)"
  unfolding split_def by (rule split_acc_words_ok) simp

lemma rstrip_append:
  "rstrip (a @ b) = (if \<forall>c \<in> set b. is_space c then rstrip a else a @ rstrip b)"
  by (simp add: rstrip_def dropWhile_append)

lemma rstrip_Nil_iff: "rstrip b = [] \<longleftrightarrow> (\<forall>c \<in> set b. is_space c)"
  by (simp add: rstrip_def)

lemma rstrip_word: "\<forall>c \<in> set w. \<not> is_space c \<Longrightarrow> rstrip w = w"
proof (cases w rule: rev_cases)
  case Nil
  then show ?thesis by (simp add: rstrip_def)
next
  case (snoc ys y)
  assume "\<forall>c \<in> set w. \<not> is_space c"
  with snoc show ?thesis by (simp add: rstrip_def)
qed

lemma join_Cons_nonempty: "ws \<noteq> [] \<Longrightarrow> join sep (w # ws) = w @ sep @ join sep ws"
  by (cases ws) auto

lemma join_eq_Nil: "words_ok ws \<Longrightarrow> join sep ws = [] \<longleftrightarrow> ws = []"
  by (induction ws rule: induct_list012) (auto simp: words_ok_Cons)

lemma rstrip_take_join:
  "words_ok ws \<Longrightarrow> \<exists>ws'. words_ok ws' \<and> rstrip (take n (join '' '' ws)) = join '' '' ws'"
proof (induction ws arbitrary: n rule: induct_list012)
  case 1
  have "words_ok [] \<and> rstrip (take n (join '' '' [])) = join '' '' []"
    by (simp add: words_ok_Nil rstrip_def)
  then show ?case by blast
next
  case (2 w)
  then have w: "\<forall>c \<in> set w. \<not> is_space c" by (simp add: words_ok_Cons)
  then have nsp: "\<forall>c \<in> set (take n w). \<not> is_space c" by (meson in_set_takeD)
  show ?case
  proof (cases "take n w = []")
    case True
    have "rstrip (take n w) = []" unfolding True by (simp add: rstrip_def)
    then have "words_ok [] \<and> rstrip (take n (join '' '' [w])) = join '' '' []"
      by (simp add: words_ok_Nil)
    then show ?thesis by blast
  next
    case False
    with nsp have "words_ok [take n w] \<and> rstrip (take n (join '' '' [w])) = join '' '' [take n w]"
      by (simp add: words_ok_Cons words_ok_Nil rstrip_word)
    then show ?thesis by blast
  qed
next
  case (3 w v ws)
  then have w: "w \<noteq> []" "\<forall>c \<in> set w. \<not> is_space c" and rest: "words_ok (v # ws)"
    by (auto simp: words_ok_Cons)
  have nsp: "\<forall>c \<in> set (take n w). \<not> is_space c" using w(2) by (meson in_set_takeD)
  show ?case
  proof (cases "n \<le> length w")
    case True
    then have tk: "take n (join '' '' (w # v # ws)) = take n w" by simp
    show ?thesis
    proof (cases "take n w = []")
      case True
      have "rstrip (take n w) = []" unfolding True by (simp add: rstrip_def)
      with tk have "words_ok [] \<and> rstrip (take n (join '' '' (w # v # ws))) = join '' '' []"
        by (simp add: words_ok_Nil)
      then show ?thesis by blast
    next
      case False
      with nsp tk have "words_ok [take n w] \<and>
          rstrip (take n (join '' '' (w # v # ws))) = join '' '' [take n w]"
        by (simp add: words_ok_Cons words_ok_Nil rstrip_word)
      then show ?thesis by blast
    qed
  next
    case False
    then obtain m where m: "n = length w + Suc m"
      by (metis add_Suc_right less_imp_Suc_add not_le)
    then have tk: "take n (join '' '' (w # v # ws)) = w @ '' '' @ take m (join '' '' (v # ws))"
      by simp
    from 3(2) [OF rest, of m] obtain ws1 where
      ws1: "words_ok ws1" "rstrip (take m (join '' '' (v # ws))) = join '' '' ws1"
      by blast
    show ?thesis
    proof (cases "ws1 = []")
      case True
      with ws1(2) have "\<forall>c \<in> set (take m (join '' '' (v # ws))). is_space c"
        by (simp add: rstrip_Nil_iff)
      then have "rstrip (take n (join '' '' (w # v # ws))) = w"
        unfolding tk using w(2) by (simp add: rstrip_append is_space_def rstrip_word)
      then have "words_ok [w] \<and> rstrip (take n (join '' '' (w # v # ws))) = join '' '' [w]"
        using w by (simp add: words_ok_Cons words_ok_Nil)
      then show ?thesis by blast
    next
      case False
      with ws1 have ne: "rstrip (take m (join '' '' (v # ws))) \<noteq> []"
        by (simp add: join_eq_Nil)
      then have nall: "\<not> (\<forall>c \<in> set (take m (join '' '' (v # ws))). is_space c)"
        by (simp add: rstrip_Nil_iff)
      have "rstrip ((w @ '' '') @ take m (join '' '' (v # ws)))
              = (w @ '' '') @ rstrip (take m (join '' '' (v # ws)))"
        by (simp only: rstrip_append nall if_False)
      then have "rstrip (take n (join '' '' (w # v # ws))) = w @ '' '' @ join '' '' ws1"
        unfolding tk ws1(2) by simp
      also have "\<dots> = join '' '' (w # ws1)"
        using False by (simp add: join_Cons_nonempty)
      finally have "words_ok (w # ws1) \<and>
          rstrip (take n (join '' '' (w # v # ws))) = join '' '' (w # ws1)"
        using w ws1(1) by (simp add: words_ok_Cons)
      then show ?thesis by blast
    qed
  qed
qed

lemma join_append_last:
  "ws \<noteq> [] \<Longrightarrow> join sep ws @ x = join sep (butlast ws @ [last ws @ x])"
  by (induction ws rule: induct_list012) (auto simp: join_Cons_nonempty)

lemma words_ok_append_last:
  "words_ok ws \<Longrightarrow> ws \<noteq> [] \<Longrightarrow> \<forall>c \<in> set x. \<not> is_space c \<Longrightarrow>
     words_ok (butlast ws @ [last ws @ x])"
  unfolding words_ok_def by (auto dest: in_set_butlastD)

lemma collapse_fixed: "words_ok ws \<Longrightarrow> join '' '' (split (join '' '' ws)) = join '' '' ws"
  by (simp add: split_join)

section \<open>Claims about the outcome classifier\<close>

text \<open>
  C1. A return code other than zero gives Blocked whatever the output holds. With return
  code zero the lowercased output is searched for the markers \<open>status: testing\<close>,
  \<open>status: blocked\<close>, \<open>status: completed\<close> in this order (\<open>first_marker\<close> over
  \<open>status_markers\<close>, where occurrence is the substring test characterised by
  \<open>str_in_iff\<close>); the first one that occurs gives Testing, Blocked or Completed, and
  when none occurs the result is Completed.
\<close>

theorem decide_priority:
  "(rc \<noteq> 0 \<longrightarrow> decide rc out = ''Blocked'') \<and>
   (rc = 0 \<longrightarrow> decide rc out = (case first_marker status_markers (lower out) of
                                   Some s \<Rightarrow> s | None \<Rightarrow> ''Completed'')) \<and>
   (rc = 0 \<and> first_marker status_markers (lower out) = None \<longrightarrow> decide rc out = ''Completed'')"
  by (simp add: decide_def status_markers_def)

theorem decide_priority_witness:
  "decide 2 ''status: testing'' = ''Blocked'' \<and>
   decide 0 ''Status: BLOCKED, then status: completed'' = ''Blocked'' \<and>
   decide 0 ''STATUS: Testing after status: blocked'' = ''Testing'' \<and>
   decide 0 ''no markers here'' = ''Completed''"
proof -
  have l1: "lower ''Status: BLOCKED, then status: completed''
              = ''status: blocked, then status: completed''"
    by code_simp
  have l2: "lower ''STATUS: Testing after status: blocked''
              = ''status: testing after status: blocked''"
    by code_simp
  have l3: "lower ''no markers here'' = ''no markers here''"
    by code_simp
  show ?thesis
    using decide_priority [of 2 "''status: testing''"]
          decide_priority [of 0 "''Status: BLOCKED, then status: completed''"]
          decide_priority [of 0 "''STATUS: Testing after status: blocked''"]
          decide_priority [of 0 "''no markers here''"]
    by (simp add: l1 l2 l3 status_markers_def)
qed

section \<open>Claims about the summarizer\<close>

text \<open>
  C9. A summary is at most 96 characters long; the empty prompt and a prompt of whitespace
  only give the empty summary; when the whitespace-collapsed prompt has at most 96
  characters the summary is that collapsed text; otherwise it is the first 93 characters
  of the collapsed text, trailing whitespace removed, followed by three dots.
\<close>

theorem summarize_shape:
  "length (summarize p) \<le> 96 \<and>
   summarize [] = [] \<and>
   ((\<forall>c \<in> set p. is_space c) \<longrightarrow> summarize p = []) \<and>
   (length (join '' '' (split p)) \<le> 96 \<longrightarrow> summarize p = join '' '' (split p)) \<and>
   (length (join '' '' (split p)) > 96 \<longrightarrow>
      summarize p = rstrip (take 93 (join '' '' (split p))) @ ''...'')"
proof -
  have len: "length (summarize p) \<le> 96"
  proof -
    have "length (rstrip (take 93 (join '' '' (split p)))) \<le> 93"
      using length_rstrip_le [of "take 93 (join '' '' (split p))"] by simp
    then show ?thesis by (simp add: summarize_def Let_def)
  qed
  have ws: "(\<forall>c \<in> set p. is_space c) \<longrightarrow> summarize p = []"
    using split_acc_blank [of p] by (simp add: summarize_def split_def)
  have empty: "summarize [] = []"
    by (simp add: summarize_def split_def)
  have short: "length (join '' '' (split p)) \<le> 96 \<longrightarrow> summarize p = join '' '' (split p)"
    by (simp add: summarize_def Let_def)
  have long: "length (join '' '' (split p)) > 96 \<longrightarrow>
      summarize p = rstrip (take 93 (join '' '' (split p))) @ ''...''"
    by (auto simp: summarize_def Let_def)
  from len empty ws short long show ?thesis by blast
qed

theorem summarize_shape_witness:
  "summarize ''  Fix   the login bug  '' = ''Fix the login bug'' \<and>
   summarize [CHR '' '', CHR 0x09, CHR '' ''] = [] \<and>
   summarize ''Investigate  the intermittent failure in the nightly build pipeline and write a terribly long report covering root causes''
     = ''Investigate the intermittent failure in the nightly build pipeline and write a terribly long...''"
proof -
  have c1: "join '' '' (split ''  Fix   the login bug  '') = ''Fix the login bug''"
    by code_simp
  have c2: "\<forall>c \<in> set [CHR '' '', CHR 0x09, CHR '' '']. is_space c"
    by (simp add: is_space_def)
  have c3: "length (join '' '' (split ''Investigate  the intermittent failure in the nightly build pipeline and write a terribly long report covering root causes'')) > 96"
    by code_simp
  have c4: "rstrip (take 93 (join '' '' (split ''Investigate  the intermittent failure in the nightly build pipeline and write a terribly long report covering root causes''))) @ ''...''
      = ''Investigate the intermittent failure in the nightly build pipeline and write a terribly long...''"
    by code_simp
  from summarize_shape [of "''  Fix   the login bug  ''"] c1
  have r1: "summarize ''  Fix   the login bug  '' = ''Fix the login bug''"
    by simp
  from summarize_shape [of "[CHR '' '', CHR 0x09, CHR '' '']"] c2
  have r2: "summarize [CHR '' '', CHR 0x09, CHR '' ''] = []"
    by blast
  from summarize_shape [of "''Investigate  the intermittent failure in the nightly build pipeline and write a terribly long report covering root causes''"] c3
  have "summarize ''Investigate  the intermittent failure in the nightly build pipeline and write a terribly long report covering root causes''
     = rstrip (take 93 (join '' '' (split ''Investigate  the intermittent failure in the nightly build pipeline and write a terribly long report covering root causes''))) @ ''...''"
    by blast
  then have r3: "summarize ''Investigate  the intermittent failure in the nightly build pipeline and write a terribly long report covering root causes''
     = ''Investigate the intermittent failure in the nightly build pipeline and write a terribly long...''"
    using c4 by (rule trans)
  from r1 r2 r3 show ?thesis by blast
qed

text \<open>
  C10. Summarizing is idempotent: the summary of a summary is that summary, so a ticket
  that the summarizer produced is returned unchanged when it is summarized again.
\<close>

theorem summarize_idempotent:
  "summarize (summarize p) = summarize p"
proof -
  define clean where "clean = join '' '' (split p)"
  have ok: "words_ok (split p)" by (rule split_words_ok)
  show ?thesis
  proof (cases "length clean \<le> 96")
    case True
    then have s: "summarize p = clean"
      by (auto simp: summarize_def clean_def Let_def)
    have "join '' '' (split clean) = clean"
      unfolding clean_def using ok by (rule collapse_fixed)
    with True have "summarize clean = clean"
      by (auto simp: summarize_def Let_def)
    with s show ?thesis by simp
  next
    case False
    then have s: "summarize p = rstrip (take 93 clean) @ ''...''"
      by (auto simp: summarize_def clean_def Let_def)
    from rstrip_take_join [OF ok, of 93] obtain ws1 where
      ws1: "words_ok ws1" "rstrip (take 93 clean) = join '' '' ws1"
      unfolding clean_def by blast
    have len: "length (rstrip (take 93 clean) @ ''...'') \<le> 96"
      using length_rstrip_le [of "take 93 clean"] by simp
    have "\<exists>ws2. words_ok ws2 \<and> rstrip (take 93 clean) @ ''...'' = join '' '' ws2"
    proof (cases "ws1 = []")
      case True
      with ws1(2) have "words_ok [''...''] \<and> rstrip (take 93 clean) @ ''...'' = join '' '' [''...'']"
        by (simp add: words_ok_Cons words_ok_Nil is_space_def)
      then show ?thesis by blast
    next
      case False
      have dots: "\<forall>c \<in> set ''...''. \<not> is_space c" by (simp add: is_space_def)
      have "words_ok (butlast ws1 @ [last ws1 @ ''...'']) \<and>
            rstrip (take 93 clean) @ ''...'' = join '' '' (butlast ws1 @ [last ws1 @ ''...''])"
        using words_ok_append_last [OF ws1(1) False dots] join_append_last [OF False]
        by (simp add: ws1(2))
      then show ?thesis by blast
    qed
    then obtain ws2 where ws2: "words_ok ws2" "rstrip (take 93 clean) @ ''...'' = join '' '' ws2"
      by blast
    have fx: "join '' '' (split (rstrip (take 93 clean) @ ''...'')) = rstrip (take 93 clean) @ ''...''"
      unfolding ws2(2) using ws2(1) by (rule collapse_fixed)
    have "summarize (rstrip (take 93 clean) @ ''...'') = rstrip (take 93 clean) @ ''...''"
      unfolding summarize_def Let_def fx using len by simp
    with s show ?thesis by simp
  qed
qed

section \<open>Facts about the execution engine\<close>












section \<open>Claims about the execution engine\<close>





section \<open>Facts about the command line\<close>

lemma replace_char:
  "replace [a] new s = concat (map (\<lambda>c. if c = a then new else [c]) s)"
  by (induction s) auto

lemma escape_chars:
  \<open>escape p = concat (map (\<lambda>c. if c = CHR 0x22 then [CHR 0x5C, CHR 0x22] else [c]) p)\<close>
  unfolding escape_def by (rule replace_char)

lemma replace_absent: "old \<noteq> [] \<Longrightarrow> \<not> str_in old s \<Longrightarrow> replace old new s = s"
  by (induction s) auto

lemma ex_template:
  \<open>replace ''{prompt}'' (escape ''fix it'') ''run --session {session_id} "{prompt}"''
     = ''run --session {session_id} "fix it"''\<close>
  by code_simp

lemma ex_template_facts:
  \<open>str_in ''{prompt}'' ''run --session {session_id} "{prompt}"''\<close>
  \<open>str_in ''{session_id}'' ''run --session {session_id} "fix it"''\<close>
  \<open>replace ''{session_id}'' ''abc'' ''run --session {session_id} "fix it"''
     = ''run --session abc "fix it"''\<close>
  by code_simp+

section \<open>Claims about the command line\<close>

text \<open>
  C6, as the specification states it, puts the resume directive of a template with a
  prompt placeholder ahead of the prompt. The code appends it to the substituted template:
  for the template \<open>run "{prompt}"\<close>, the prompt \<open>hi\<close> and the session \<open>abc\<close> the
  command line is \<open>run "hi" resume abc\<close>, where the prompt starts at index 5 and the
  directive at index 9.
\<close>

theorem build_command_resume_after_prompt:
  \<open>build_command (new_ExecutionAgent True) ''run "{prompt}"'' ''hi'' ''abc''
     = ''run "hi" resume abc'' \<and>
   find_sub ''hi'' (''run "hi" resume abc'') = Some 5 \<and>
   find_sub ''resume abc'' (''run "hi" resume abc'') = Some 9\<close>
  by code_simp

text \<open>
  C6, amended. Let \<open>built\<close> be the template with every occurrence of the prompt
  placeholder replaced by the escaped prompt (each double quote preceded by a backslash).
  If the template contains the prompt placeholder: when \<open>built\<close> contains the session
  placeholder, its occurrences are replaced by the session id; otherwise \<open>resume\<close> and
  the session id are appended at the end of \<open>built\<close>, after the prompt, when a session
  id is supplied, and \<open>built\<close> is the result when none is. If the template does not
  contain the prompt placeholder: with auto-close set and no \<open>exec\<close> or \<open>review\<close>
  token in the lowercased template, \<open>exec\<close>, then \<open>resume\<close> and the session id when one
  is supplied, then the quoted escaped prompt are appended to the template; in every other
  case only \<open>resume\<close> and the session id (when one is supplied) and the quoted escaped
  prompt are appended.
\<close>

theorem build_command_construction:
  assumes t: "built = replace ''{prompt}'' (escape p) command"
  shows
  \<open>(str_in ''{prompt}'' command \<and> str_in ''{session_id}'' built \<longrightarrow>
      build_command self command p sid = replace ''{session_id}'' sid built) \<and>
   (str_in ''{prompt}'' command \<and> \<not> str_in ''{session_id}'' built \<and> sid \<noteq> [] \<longrightarrow>
      build_command self command p sid = built @ '' resume '' @ sid) \<and>
   (str_in ''{prompt}'' command \<and> \<not> str_in ''{session_id}'' built \<and> sid = [] \<longrightarrow>
      build_command self command p sid = built) \<and>
   (\<not> str_in ''{prompt}'' command \<and> auto_close_after_task self \<and>
    \<not> is_noninteractive_agent_command (lower (strip command)) \<longrightarrow>
      build_command self command p sid =
        command @ '' exec'' @ (if sid \<noteq> [] then '' resume '' @ sid else []) @
        '' "'' @ escape p @ ''"'') \<and>
   (\<not> str_in ''{prompt}'' command \<and>
    \<not> (auto_close_after_task self \<and>
       \<not> is_noninteractive_agent_command (lower (strip command))) \<longrightarrow>
      build_command self command p sid =
        command @ (if sid \<noteq> [] then '' resume '' @ sid else []) @
        '' "'' @ escape p @ ''"'') \<and>
   escape p = concat (map (\<lambda>c. if c = CHR 0x22 then [CHR 0x5C, CHR 0x22] else [c]) p) \<and>
   (\<not> str_in ''{session_id}'' built \<longrightarrow> replace ''{session_id}'' sid built = built)\<close>
proof -
  have e: \<open>escape p = concat (map (\<lambda>c. if c = CHR 0x22 then [CHR 0x5C, CHR 0x22] else [c]) p)\<close>
    by (rule escape_chars)
  have r: "\<not> str_in ''{session_id}'' built \<longrightarrow> replace ''{session_id}'' sid built = built"
    by (simp add: replace_absent)
  have main: \<open>(str_in ''{prompt}'' command \<and> str_in ''{session_id}'' built \<longrightarrow>
      build_command self command p sid = replace ''{session_id}'' sid built) \<and>
   (str_in ''{prompt}'' command \<and> \<not> str_in ''{session_id}'' built \<and> sid \<noteq> [] \<longrightarrow>
      build_command self command p sid = built @ '' resume '' @ sid) \<and>
   (str_in ''{prompt}'' command \<and> \<not> str_in ''{session_id}'' built \<and> sid = [] \<longrightarrow>
      build_command self command p sid = built) \<and>
   (\<not> str_in ''{prompt}'' command \<and> auto_close_after_task self \<and>
    \<not> is_noninteractive_agent_command (lower (strip command)) \<longrightarrow>
      build_command self command p sid =
        command @ '' exec'' @ (if sid \<noteq> [] then '' resume '' @ sid else []) @
        '' "'' @ escape p @ ''"'') \<and>
   (\<not> str_in ''{prompt}'' command \<and>
    \<not> (auto_close_after_task self \<and>
       \<not> is_noninteractive_agent_command (lower (strip command))) \<longrightarrow>
      build_command self command p sid =
        command @ (if sid \<noteq> [] then '' resume '' @ sid else []) @
        '' "'' @ escape p @ ''"'')\<close>
    unfolding t build_command_def Let_def by simp
  from main e r show ?thesis by blast
qed

theorem build_command_construction_witness:
  \<open>build_command (new_ExecutionAgent True) ''run --session {session_id} "{prompt}"''
       ''fix it'' ''abc''
     = ''run --session abc "fix it"''\<close>
  using build_command_construction [OF ex_template [symmetric],
          of "new_ExecutionAgent True" "''abc''"] ex_template_facts
  by simp

section \<open>Facts about the sheet and the driver\<close>

lemma get_row_put_row: "0 < r \<Longrightarrow> get_row (put_row sh r cells) r = cells"
  by (auto simp: get_row_def put_row_def nth_list_update)

lemma or_else_Nil: "or_else a [] = a"
  by (simp add: or_else_def)

lemma get_row_zero: "get_row sh 0 = blank_row"
  by (simp add: get_row_def)

lemma get_row_update_row_columns:
  "1 \<le> r \<Longrightarrow> get_row (update_row_columns sh r ups) r column =
     (case map_of (rev ups) column of Some v \<Rightarrow> v | None \<Rightarrow> get_row sh r column)"
proof (induction ups arbitrary: sh)
  case Nil
  then show ?case by simp
next
  case (Cons u ups)
  obtain c v where u: "u = (c, v)" by (cases u)
  show ?case
    using Cons.IH [OF Cons.prems, of "put_row sh r ((get_row sh r)(c := v))"] Cons.prems
    by (auto simp: u get_row_put_row map_add_def split: option.splits)
qed

lemma prompt_nonempty_row: "prompt (read_row sh r) \<noteq> [] \<Longrightarrow> 1 \<le> r"
  by (cases r) (auto simp: read_row_def get_row_zero blank_row_def Let_def)

lemma step_approved:
  assumes "prompt (read_row (cur_sheet st) (row_number st)) \<noteq> []"
      and "strip (status (read_row (cur_sheet st) (row_number st))) = ''Approved''"
  shows "step agent prefix command st =
           Continue (st\<lparr>cur_sheet := archive_and_shift (cur_sheet st) (row_number st),
                        archived := archived st + 1,
                        events := events st @ [ArchiveAndShift (row_number st)]\<rparr>)"
  using assms unfolding step_def Let_def or_else_Nil by (simp add: or_else_def)

lemma step_new:
  assumes "prompt (read_row (cur_sheet st) (row_number st)) \<noteq> []"
      and "strip (status (read_row (cur_sheet st) (row_number st))) \<noteq> ''Approved''"
      and "ticket (read_row (cur_sheet st) (row_number st)) = []"
      and "agent command (join_prefix prefix (prompt (read_row (cur_sheet st) (row_number st)))) []
             = Inr result"
  shows "step agent prefix command st =
           Continue (st\<lparr>cur_sheet :=
                          update_row_columns
                            (update_row_columns (cur_sheet st) (row_number st)
                               [(CHR ''C'', summarize (prompt (read_row (cur_sheet st) (row_number st)))),
                                (CHR ''D'', ''Ongoing'')])
                            (row_number st) (result_updates result),
                        row_number := row_number st + 1,
                        executed := executed st + 1,
                        events := events st @
                          [UpdateRowColumns (row_number st)
                             [(CHR ''C'', summarize (prompt (read_row (cur_sheet st) (row_number st)))),
                              (CHR ''D'', ''Ongoing'')],
                           RunAgent command
                             (join_prefix prefix (prompt (read_row (cur_sheet st) (row_number st)))) [],
                           UpdateRowColumns (row_number st) (result_updates result)]\<rparr>)"
  using assms unfolding step_def Let_def or_else_Nil by (simp add: or_else_def)

lemma step_resume:
  assumes "prompt (read_row (cur_sheet st) (row_number st)) \<noteq> []"
      and "strip (status (read_row (cur_sheet st) (row_number st))) = ''Ongoing''"
      and "ticket (read_row (cur_sheet st) (row_number st)) \<noteq> []"
      and "sent = join_prefix prefix
                    (if strip (user_input (read_row (cur_sheet st) (row_number st))) \<noteq> []
                     then strip (user_input (read_row (cur_sheet st) (row_number st)))
                     else prompt (read_row (cur_sheet st) (row_number st)))"
      and "agent command sent (session_id (read_row (cur_sheet st) (row_number st))) = Inr result"
  shows "step agent prefix command st =
           Continue (st\<lparr>cur_sheet := update_row_columns (cur_sheet st) (row_number st)
                                        (result_updates result),
                        row_number := row_number st + 1,
                        executed := executed st + 1,
                        events := events st @
                          [RunAgent command sent
                             (session_id (read_row (cur_sheet st) (row_number st))),
                           UpdateRowColumns (row_number st) (result_updates result)]\<rparr>)"
  using assms unfolding step_def Let_def or_else_Nil by (simp add: or_else_def)

lemma result_updates_ticket: "map_of (rev (result_updates result)) CHR ''C'' = None"
  by (simp add: result_updates_def)

lemma ticket_after_new:
  assumes "1 \<le> n"
  shows "ticket (read_row (update_row_columns
                   (update_row_columns sh n [(CHR ''C'', summary), (CHR ''D'', ''Ongoing'')])
                   n (result_updates result)) n) = summary"
proof -
  have "get_row (update_row_columns sh n [(CHR ''C'', summary), (CHR ''D'', ''Ongoing'')]) n CHR ''C''
          = summary"
    using assms by (simp add: get_row_put_row)
  then show ?thesis
    using assms
    by (simp only: read_row_def Let_def get_row_update_row_columns result_updates_ticket) simp
qed

lemma provisional_row:
  assumes "1 \<le> n"
  shows "ticket (read_row (update_row_columns sh n
                   [(CHR ''C'', summary), (CHR ''D'', ''Ongoing'')]) n) = summary \<and>
         status (read_row (update_row_columns sh n
                   [(CHR ''C'', summary), (CHR ''D'', ''Ongoing'')]) n) = ''Ongoing''"
  using assms by (simp add: read_row_def Let_def get_row_put_row)

lemma split_acc_nonblank: "\<exists>c \<in> set s. \<not> is_space c \<Longrightarrow> split_acc acc s \<noteq> []"
proof (induction s arbitrary: acc)
  case Nil
  then show ?case by simp
next
  case (Cons c s)
  show ?case
  proof (cases "is_space c")
    case True
    with Cons.prems have "\<exists>d \<in> set s. \<not> is_space d" by auto
    then have "split_acc [] s \<noteq> []" by (rule Cons.IH)
    with True show ?thesis by simp
  next
    case False
    have "split_acc (acc @ [c]) s \<noteq> []"
    proof (cases "\<exists>d \<in> set s. \<not> is_space d")
      case True
      then show ?thesis by (rule Cons.IH)
    next
      case False
      then have "\<forall>d \<in> set s. is_space d" by blast
      then show ?thesis by (induction s arbitrary: acc) auto
    qed
    with False show ?thesis by simp
  qed
qed

lemma summarize_nonempty: "\<exists>c \<in> set p. \<not> is_space c \<Longrightarrow> summarize p \<noteq> []"
proof -
  assume "\<exists>c \<in> set p. \<not> is_space c"
  then have "split p \<noteq> []" unfolding split_def by (rule split_acc_nonblank)
  then have "join '' '' (split p) \<noteq> []"
    using join_eq_Nil [OF split_words_ok, of "'' ''" p] by simp
  then show ?thesis by (simp add: summarize_def Let_def)
qed

lemma ex_read_row:
  "read_row (cur_sheet (start_state [blank_row, task_row p t s u sid])) (row_number (start_state [blank_row, task_row p t s u sid]))
     = \<lparr>prompt = p, ticket = t, status = s, user_input = u, thoughts = [], session_id = sid\<rparr>"
  by (simp add: start_state_def TASK_START_ROW_def read_row_def get_row_def task_row_def
        blank_row_def Let_def)

lemma strip_Approved: "strip ''Approved'' = ''Approved''"
  by code_simp

lemma join_prefix_both:
  "strip prefix \<noteq> [] \<Longrightarrow> strip x \<noteq> [] \<Longrightarrow> join_prefix prefix x = strip prefix @ '' '' @ strip x"
  by (simp add: join_prefix_def Let_def)

lemma join_prefix_none: "strip prefix = [] \<Longrightarrow> join_prefix prefix x = strip x"
  by (simp add: join_prefix_def Let_def)

lemma ex_strings:
  "strip [] = []"
  "strip ''Ongoing'' = ''Ongoing''"
  "strip '' '' = []"
  "strip ''go'' = ''go''"
  "strip ''Fix bug'' = ''Fix bug''"
  "strip ''continue'' = ''continue''"
  "summarize '' '' = []"
  "summarize ''Fix bug'' = ''Fix bug''"
  by code_simp+

lemma ex_join_prefix:
  "join_prefix ''go'' '' '' = ''go''"
  "join_prefix ''go'' ''Fix bug'' = ''go Fix bug''"
  "join_prefix ''go'' ''continue'' = ''go continue''"
  "join_prefix [] ''Fix bug'' = ''Fix bug''"
  "join_prefix [] '' '' = []"
  by (simp_all add: join_prefix_def Let_def ex_strings)

lemma ex_result_updates:
  "result_updates completed_result =
     [(CHR ''D'', ''Completed''), (CHR ''F'', ''ok''), (CHR ''G'', ''s1'')]"
  by (simp add: result_updates_def completed_result_def)

lemma ex_read_row2:
  "read_row (cur_sheet (start_state [blank_row, task_row p t s u sid])) 2
     = \<lparr>prompt = p, ticket = t, status = s, user_input = u, thoughts = [], session_id = sid\<rparr>"
  using ex_read_row [of p t s u sid] by (simp add: start_state_def TASK_START_ROW_def)

lemma ex_start: "row_number (start_state sh) = 2" "events (start_state sh) = []"
  "executed (start_state sh) = 0" "archived (start_state sh) = 0"
  by (simp_all add: start_state_def TASK_START_ROW_def)

section \<open>Claims about the queue driver\<close>

text \<open>
  C2. An iteration that reads a row with a non-empty prompt and the status Approved calls
  \<open>archive_and_shift\<close> once, for that row position, and calls nothing else, so the
  execution engine is not invoked; \<open>archived_rows\<close> grows by one, \<open>executed_rows\<close> and
  the row position stay as they are, and the loop goes on from the new state, so its next
  iteration reads the same row position.
\<close>

theorem approved_row_archived:
  assumes "prompt (read_row (cur_sheet st) (row_number st)) \<noteq> []"
      and "strip (status (read_row (cur_sheet st) (row_number st))) = ''Approved''"
      and "st' = st\<lparr>cur_sheet := archive_and_shift (cur_sheet st) (row_number st),
                     archived := archived st + 1,
                     events := events st @ [ArchiveAndShift (row_number st)]\<rparr>"
  shows "step agent prefix command st = Continue st' \<and>
         events st' = events st @ [ArchiveAndShift (row_number st)] \<and>
         archived st' = archived st + 1 \<and>
         executed st' = executed st \<and>
         row_number st' = row_number st \<and>
         run_loop agents prefix command st = run_loop agents prefix command st'"
proof -
  have s: "step a prefix command st = Continue st'" for a
    unfolding assms(3) using assms(1,2) by (rule step_approved)
  have "run_loop agents prefix command st = run_loop agents prefix command st'"
    by (subst run_loop.simps) (simp add: s)
  with s show ?thesis by (simp add: assms(3))
qed

theorem approved_row_archived_witness:
  "map_option (\<lambda>s. (events s, archived s, executed s, row_number s))
     (result_state (step (fixed_agent completed_result) [] ''codex''
        (start_state [blank_row, task_row ''Fix bug'' ''T1'' ''Approved'' [] []])))
   = Some ([ArchiveAndShift 2], 1, 0, 2)"
proof -
  let ?st = "start_state [blank_row, task_row ''Fix bug'' ''T1'' ''Approved'' [] []]"
  have p: "prompt (read_row (cur_sheet ?st) (row_number ?st)) \<noteq> []"
    by (simp add: ex_read_row)
  have s: "strip (status (read_row (cur_sheet ?st) (row_number ?st))) = ''Approved''"
    by (simp add: ex_read_row strip_Approved)
  from approved_row_archived [OF p s refl, of "fixed_agent completed_result" "[]" "''codex''"]
  show ?thesis
    by (simp add: start_state_def TASK_START_ROW_def)
qed

text \<open>
  C3, as the specification states it, has the engine invoked for every row with a
  non-empty prompt and an empty ticket, and the ticket non-empty after the first
  execution. A row with an empty ticket whose status is Approved is archived and not
  executed; and for a prompt that is a single space the ticket written is the empty
  summary, so it is still empty after the execution.
\<close>

theorem approved_unexecuted_row_and_blank_prompt:
  "events_after (step (fixed_agent completed_result) [] ''codex''
        (start_state [blank_row, task_row ''Fix bug'' [] ''Approved'' [] []]))
     = Some [ArchiveAndShift 2] \<and>
   map_option ticket
     (row_after (step (fixed_agent completed_result) [] ''codex''
        (start_state [blank_row, task_row '' '' [] [] [] []])) 2)
     = Some []"
proof -
  let ?a = "start_state [blank_row, task_row ''Fix bug'' [] ''Approved'' [] []]"
  let ?b = "start_state [blank_row, task_row '' '' [] [] [] []]"
  have "step (fixed_agent completed_result) [] ''codex'' ?a =
          Continue (?a\<lparr>cur_sheet := archive_and_shift (cur_sheet ?a) (row_number ?a),
                        archived := archived ?a + 1,
                        events := events ?a @ [ArchiveAndShift (row_number ?a)]\<rparr>)"
    by (rule step_approved) (simp_all add: ex_read_row strip_Approved)
  then have one: "events_after (step (fixed_agent completed_result) [] ''codex'' ?a)
                    = Some [ArchiveAndShift 2]"
    by (simp add: events_after_def ex_start)
  have "step (fixed_agent completed_result) [] ''codex'' ?b =
           Continue (?b\<lparr>cur_sheet :=
                          update_row_columns
                            (update_row_columns (cur_sheet ?b) (row_number ?b)
                               [(CHR ''C'', summarize (prompt (read_row (cur_sheet ?b) (row_number ?b)))),
                                (CHR ''D'', ''Ongoing'')])
                            (row_number ?b) (result_updates completed_result),
                        row_number := row_number ?b + 1,
                        executed := executed ?b + 1,
                        events := events ?b @
                          [UpdateRowColumns (row_number ?b)
                             [(CHR ''C'', summarize (prompt (read_row (cur_sheet ?b) (row_number ?b)))),
                              (CHR ''D'', ''Ongoing'')],
                           RunAgent ''codex''
                             (join_prefix [] (prompt (read_row (cur_sheet ?b) (row_number ?b)))) [],
                           UpdateRowColumns (row_number ?b) (result_updates completed_result)]\<rparr>)"
    by (rule step_new) (simp_all add: ex_read_row ex_strings fixed_agent_def)
  then have two: "map_option ticket
     (row_after (step (fixed_agent completed_result) [] ''codex'' ?b) 2) = Some []"
    using ticket_after_new [of 2 "cur_sheet ?b" "summarize '' ''" completed_result]
    by (simp add: row_after_def ex_start ex_read_row2 ex_strings del: update_row_columns.simps)
  from one two show ?thesis by blast
qed

text \<open>
  C3, amended. For every row with a non-empty prompt, an empty ticket and a status other
  than Approved, the driver first writes the summary of the prompt as ticket together with
  the status Ongoing, then invokes the execution engine with the prefix-joined prompt and
  the empty session id, then writes the result; after that the ticket of the row is the
  summary of its prompt, which is not empty when the prompt holds a character that is not
  whitespace; \<open>executed_rows\<close> and the row position grow by one.
\<close>

theorem new_row_first_execution:
  assumes "row = read_row (cur_sheet st) (row_number st)"
      and "prompt row \<noteq> []"
      and "strip (status row) \<noteq> ''Approved''"
      and "ticket row = []"
      and "first_update = [(CHR ''C'', summarize (prompt row)), (CHR ''D'', ''Ongoing'')]"
      and "agent command (join_prefix prefix (prompt row)) [] = Inr result"
  shows "\<exists>st'. step agent prefix command st = Continue st' \<and>
           events st' = events st @
             [UpdateRowColumns (row_number st) first_update,
              RunAgent command (join_prefix prefix (prompt row)) [],
              UpdateRowColumns (row_number st) (result_updates result)] \<and>
           ticket (read_row (update_row_columns (cur_sheet st) (row_number st) first_update)
                     (row_number st)) = summarize (prompt row) \<and>
           status (read_row (update_row_columns (cur_sheet st) (row_number st) first_update)
                     (row_number st)) = ''Ongoing'' \<and>
           ticket (read_row (cur_sheet st') (row_number st)) = summarize (prompt row) \<and>
           ((\<exists>c \<in> set (prompt row). \<not> is_space c) \<longrightarrow>
              ticket (read_row (cur_sheet st') (row_number st)) \<noteq> []) \<and>
           executed st' = executed st + 1 \<and>
           row_number st' = row_number st + 1"
proof -
  let ?n = "row_number st"
  let ?st' = "st\<lparr>cur_sheet := update_row_columns
                       (update_row_columns (cur_sheet st) ?n first_update) ?n (result_updates result),
                  row_number := ?n + 1,
                  executed := executed st + 1,
                  events := events st @
                    [UpdateRowColumns ?n first_update,
                     RunAgent command (join_prefix prefix (prompt row)) [],
                     UpdateRowColumns ?n (result_updates result)]\<rparr>"
  have n: "1 \<le> ?n"
    using assms(1,2) prompt_nonempty_row by blast
  have s: "step agent prefix command st = Continue ?st'"
    using step_new [of st agent command prefix result] assms by simp
  have prov: "ticket (read_row (update_row_columns (cur_sheet st) ?n first_update) ?n)
                = summarize (prompt row) \<and>
              status (read_row (update_row_columns (cur_sheet st) ?n first_update) ?n) = ''Ongoing''"
    unfolding assms(5) using n by (rule provisional_row)
  have t: "ticket (read_row (cur_sheet ?st') ?n) = summarize (prompt row)"
    unfolding assms(5) using ticket_after_new [OF n] by simp
  have ne: "(\<exists>c \<in> set (prompt row). \<not> is_space c) \<longrightarrow> ticket (read_row (cur_sheet ?st') ?n) \<noteq> []"
    unfolding t using summarize_nonempty by blast
  from s prov t ne show ?thesis
    by (intro exI [of _ ?st']) simp
qed

theorem new_row_first_execution_witness:
  "events_after (step (fixed_agent completed_result) ''go'' ''codex''
        (start_state [blank_row, task_row ''Fix bug'' [] [] [] []]))
     = Some [UpdateRowColumns 2 [(CHR ''C'', ''Fix bug''), (CHR ''D'', ''Ongoing'')],
             RunAgent ''codex'' ''go Fix bug'' [],
             UpdateRowColumns 2 [(CHR ''D'', ''Completed''), (CHR ''F'', ''ok''), (CHR ''G'', ''s1'')]]"
proof -
  let ?st = "start_state [blank_row, task_row ''Fix bug'' [] [] [] []]"
  let ?row = "\<lparr>prompt = ''Fix bug'', ticket = [], status = [], user_input = [], thoughts = [],
              session_id = []\<rparr>"
  have r: "?row = read_row (cur_sheet ?st) (row_number ?st)"
    by (rule ex_read_row [symmetric])
  have p: "prompt ?row \<noteq> []" by simp
  have a: "strip (status ?row) \<noteq> ''Approved''" by (simp add: ex_strings)
  have t: "ticket ?row = []" by simp
  have ag: "fixed_agent completed_result ''codex'' (join_prefix ''go'' (prompt ?row)) []
              = Inr completed_result"
    by (simp add: fixed_agent_def)
  from new_row_first_execution [where agent = "fixed_agent completed_result"
         and command = "''codex''" and prefix = "''go''" and result = completed_result,
         OF r p a t refl ag]
  obtain st' where "step (fixed_agent completed_result) ''go'' ''codex'' ?st = Continue st'"
    and "events st' = events ?st @
             [UpdateRowColumns (row_number ?st)
                [(CHR ''C'', summarize (prompt ?row)), (CHR ''D'', ''Ongoing'')],
              RunAgent ''codex'' (join_prefix ''go'' (prompt ?row)) [],
              UpdateRowColumns (row_number ?st) (result_updates completed_result)]"
    by blast
  then show ?thesis
    by (simp add: events_after_def ex_start ex_strings ex_join_prefix ex_result_updates)
qed

text \<open>
  C7, as the specification states it, sends the user input whenever it is not empty. For a
  user input that is a single space, the prefix \<open>go\<close> and the prompt \<open>Fix bug\<close> the
  engine is invoked with \<open>go Fix bug\<close>, while the prefix joined with that user input is
  \<open>go\<close>.
\<close>

theorem blank_user_input_resumes_with_prompt:
  "events_after (step (fixed_agent completed_result) ''go'' ''codex''
        (start_state [blank_row, task_row ''Fix bug'' ''T1'' ''Ongoing'' '' '' ''abc'']))
     = Some [RunAgent ''codex'' ''go Fix bug'' ''abc'',
             UpdateRowColumns 2 [(CHR ''D'', ''Completed''), (CHR ''F'', ''ok''), (CHR ''G'', ''s1'')]] \<and>
   user_input (read_row [blank_row, task_row ''Fix bug'' ''T1'' ''Ongoing'' '' '' ''abc''] 2) = '' '' \<and>
   join_prefix ''go'' '' '' = ''go''"
proof -
  let ?st = "start_state [blank_row, task_row ''Fix bug'' ''T1'' ''Ongoing'' '' '' ''abc'']"
  have "step (fixed_agent completed_result) ''go'' ''codex'' ?st =
           Continue (?st\<lparr>cur_sheet := update_row_columns (cur_sheet ?st) (row_number ?st)
                                        (result_updates completed_result),
                        row_number := row_number ?st + 1,
                        executed := executed ?st + 1,
                        events := events ?st @
                          [RunAgent ''codex'' ''go Fix bug''
                             (session_id (read_row (cur_sheet ?st) (row_number ?st))),
                           UpdateRowColumns (row_number ?st) (result_updates completed_result)]\<rparr>)"
    by (rule step_resume [of ?st "''go Fix bug''" "''go''" "fixed_agent completed_result"
                             "''codex''" completed_result])
       (simp_all add: ex_read_row ex_strings ex_join_prefix fixed_agent_def)
  then have one: "events_after (step (fixed_agent completed_result) ''go'' ''codex'' ?st)
     = Some [RunAgent ''codex'' ''go Fix bug'' ''abc'',
             UpdateRowColumns 2 [(CHR ''D'', ''Completed''), (CHR ''F'', ''ok''), (CHR ''G'', ''s1'')]]"
    by (simp add: events_after_def ex_start ex_read_row2 ex_result_updates
          del: update_row_columns.simps)
  have two: "user_input (read_row [blank_row, task_row ''Fix bug'' ''T1'' ''Ongoing'' '' '' ''abc''] 2) = '' ''"
    using ex_read_row [of "''Fix bug''" "''T1''" "''Ongoing''" "'' ''" "''abc''"]
    by (simp add: start_state_def TASK_START_ROW_def)
  from one two ex_join_prefix(1) show ?thesis by blast
qed

text \<open>
  C7, amended. For every row with a non-empty prompt, a non-empty ticket and the status
  Ongoing, the engine is invoked with the session id of the row and with the prefix joined
  to the user input with its surrounding whitespace removed when that is not empty, and to
  the prompt of the row otherwise; the join puts the trimmed prefix, one space and the
  trimmed text together when both are non-empty and is the trimmed text alone when the
  prefix is blank. The result is written to the row, \<open>executed_rows\<close> and the row
  position grow by one. A new execution is invoked with the prefix joined to the prompt in
  the same way.
\<close>

theorem ongoing_row_resumed:
  assumes "row = read_row (cur_sheet st) (row_number st)"
      and "prompt row \<noteq> []"
      and "ticket row \<noteq> []"
      and "strip (status row) = ''Ongoing''"
      and "resume_prompt = (if strip (user_input row) \<noteq> [] then strip (user_input row)
                            else prompt row)"
      and "agent command (join_prefix prefix resume_prompt) (session_id row) = Inr result"
  shows "(\<exists>st'. step agent prefix command st = Continue st' \<and>
            events st' = events st @
              [RunAgent command (join_prefix prefix resume_prompt) (session_id row),
               UpdateRowColumns (row_number st) (result_updates result)] \<and>
            cur_sheet st' = update_row_columns (cur_sheet st) (row_number st)
                              (result_updates result) \<and>
            executed st' = executed st + 1 \<and>
            row_number st' = row_number st + 1) \<and>
         (strip prefix \<noteq> [] \<and> strip resume_prompt \<noteq> [] \<longrightarrow>
            join_prefix prefix resume_prompt = strip prefix @ '' '' @ strip resume_prompt) \<and>
         (strip prefix = [] \<longrightarrow> join_prefix prefix resume_prompt = strip resume_prompt) \<and>
         (prompt (read_row (cur_sheet st_new) (row_number st_new)) \<noteq> [] \<and>
          strip (status (read_row (cur_sheet st_new) (row_number st_new))) \<noteq> ''Approved'' \<and>
          ticket (read_row (cur_sheet st_new) (row_number st_new)) = [] \<and>
          agent_new command (join_prefix prefix (prompt (read_row (cur_sheet st_new) (row_number st_new)))) []
            = Inr result_new \<longrightarrow>
            map_option events (result_state (step agent_new prefix command st_new)) =
              Some (events st_new @
                [UpdateRowColumns (row_number st_new)
                   [(CHR ''C'', summarize (prompt (read_row (cur_sheet st_new) (row_number st_new)))),
                    (CHR ''D'', ''Ongoing'')],
                 RunAgent command
                   (join_prefix prefix (prompt (read_row (cur_sheet st_new) (row_number st_new)))) [],
                 UpdateRowColumns (row_number st_new) (result_updates result_new)]))"
proof -
  let ?n = "row_number st"
  let ?st' = "st\<lparr>cur_sheet := update_row_columns (cur_sheet st) ?n (result_updates result),
                  row_number := ?n + 1,
                  executed := executed st + 1,
                  events := events st @
                    [RunAgent command (join_prefix prefix resume_prompt) (session_id row),
                     UpdateRowColumns ?n (result_updates result)]\<rparr>"
  have p: "prompt (read_row (cur_sheet st) (row_number st)) \<noteq> []"
    using assms(1,2) by simp
  have o: "strip (status (read_row (cur_sheet st) (row_number st))) = ''Ongoing''"
    using assms(1,4) by simp
  have t: "ticket (read_row (cur_sheet st) (row_number st)) \<noteq> []"
    using assms(1,3) by simp
  have sent: "join_prefix prefix resume_prompt = join_prefix prefix
                    (if strip (user_input (read_row (cur_sheet st) (row_number st))) \<noteq> []
                     then strip (user_input (read_row (cur_sheet st) (row_number st)))
                     else prompt (read_row (cur_sheet st) (row_number st)))"
    unfolding assms(5) assms(1) by (rule refl)
  have ag: "agent command (join_prefix prefix resume_prompt)
              (session_id (read_row (cur_sheet st) (row_number st))) = Inr result"
    using assms(6) unfolding assms(1) .
  have s: "step agent prefix command st = Continue ?st'"
    unfolding assms(1)
    by (rule step_resume [of st "join_prefix prefix resume_prompt" prefix agent command result,
                          OF p o t sent ag])
  have one: "\<exists>st'. step agent prefix command st = Continue st' \<and>
            events st' = events st @
              [RunAgent command (join_prefix prefix resume_prompt) (session_id row),
               UpdateRowColumns (row_number st) (result_updates result)] \<and>
            cur_sheet st' = update_row_columns (cur_sheet st) (row_number st)
                              (result_updates result) \<and>
            executed st' = executed st + 1 \<and>
            row_number st' = row_number st + 1"
    using s by (intro exI [of _ ?st']) simp
  have two: "strip prefix \<noteq> [] \<and> strip resume_prompt \<noteq> [] \<longrightarrow>
            join_prefix prefix resume_prompt = strip prefix @ '' '' @ strip resume_prompt"
    using join_prefix_both by blast
  have three: "strip prefix = [] \<longrightarrow> join_prefix prefix resume_prompt = strip resume_prompt"
    using join_prefix_none by blast
  have four: "prompt (read_row (cur_sheet st_new) (row_number st_new)) \<noteq> [] \<and>
          strip (status (read_row (cur_sheet st_new) (row_number st_new))) \<noteq> ''Approved'' \<and>
          ticket (read_row (cur_sheet st_new) (row_number st_new)) = [] \<and>
          agent_new command (join_prefix prefix (prompt (read_row (cur_sheet st_new) (row_number st_new)))) []
            = Inr result_new \<longrightarrow>
            map_option events (result_state (step agent_new prefix command st_new)) =
              Some (events st_new @
                [UpdateRowColumns (row_number st_new)
                   [(CHR ''C'', summarize (prompt (read_row (cur_sheet st_new) (row_number st_new)))),
                    (CHR ''D'', ''Ongoing'')],
                 RunAgent command
                   (join_prefix prefix (prompt (read_row (cur_sheet st_new) (row_number st_new)))) [],
                 UpdateRowColumns (row_number st_new) (result_updates result_new)])"
  proof (intro impI, elim conjE)
    assume a: "prompt (read_row (cur_sheet st_new) (row_number st_new)) \<noteq> []"
              "strip (status (read_row (cur_sheet st_new) (row_number st_new))) \<noteq> ''Approved''"
              "ticket (read_row (cur_sheet st_new) (row_number st_new)) = []"
              "agent_new command (join_prefix prefix (prompt (read_row (cur_sheet st_new) (row_number st_new)))) []
                 = Inr result_new"
    show "map_option events (result_state (step agent_new prefix command st_new)) =
              Some (events st_new @
                [UpdateRowColumns (row_number st_new)
                   [(CHR ''C'', summarize (prompt (read_row (cur_sheet st_new) (row_number st_new)))),
                    (CHR ''D'', ''Ongoing'')],
                 RunAgent command
                   (join_prefix prefix (prompt (read_row (cur_sheet st_new) (row_number st_new)))) [],
                 UpdateRowColumns (row_number st_new) (result_updates result_new)])"
      by (simp add: step_new [of st_new agent_new command prefix result_new, OF a])
  qed
  from one two three four show ?thesis by blast
qed

theorem ongoing_row_resumed_witness:
  "events_after (step (fixed_agent completed_result) ''go'' ''codex''
        (start_state [blank_row, task_row ''Fix bug'' ''T1'' ''Ongoing'' ''continue'' ''abc'']))
     = Some [RunAgent ''codex'' ''go continue'' ''abc'',
             UpdateRowColumns 2 [(CHR ''D'', ''Completed''), (CHR ''F'', ''ok''), (CHR ''G'', ''s1'')]]"
proof -
  let ?st = "start_state [blank_row, task_row ''Fix bug'' ''T1'' ''Ongoing'' ''continue'' ''abc'']"
  let ?row = "\<lparr>prompt = ''Fix bug'', ticket = ''T1'', status = ''Ongoing'',
              user_input = ''continue'', thoughts = [], session_id = ''abc''\<rparr>"
  have r: "?row = read_row (cur_sheet ?st) (row_number ?st)"
    by (rule ex_read_row [symmetric])
  have p: "prompt ?row \<noteq> []" by simp
  have t: "ticket ?row \<noteq> []" by simp
  have o: "strip (status ?row) = ''Ongoing''" by (simp add: ex_strings)
  have u: "''continue'' = (if strip (user_input ?row) \<noteq> [] then strip (user_input ?row)
                           else prompt ?row)"
    by (simp add: ex_strings)
  have ag: "fixed_agent completed_result ''codex'' (join_prefix ''go'' ''continue'')
              (session_id ?row) = Inr completed_result"
    by (simp add: fixed_agent_def)
  from ongoing_row_resumed [where agent = "fixed_agent completed_result"
         and command = "''codex''" and prefix = "''go''" and result = completed_result
         and resume_prompt = "''continue''"
         and st_new = ?st and agent_new = "fixed_agent completed_result"
         and result_new = completed_result, OF r p t o u ag, THEN conjunct1]
  obtain st' where "step (fixed_agent completed_result) ''go'' ''codex'' ?st = Continue st'"
    and "events st' = events ?st @
             [RunAgent ''codex'' (join_prefix ''go'' ''continue'') (session_id ?row),
              UpdateRowColumns (row_number ?st) (result_updates completed_result)]"
    by blast
  then show ?thesis
    by (simp add: events_after_def ex_start ex_join_prefix ex_result_updates)
qed

section \<open>Facts about the pattern matcher\<close>

lemma first_match_find:
  "first_match ps out =
     (case find (\<lambda>p. re_search p out \<noteq> None) ps of
        None \<Rightarrow> [] | Some p \<Rightarrow> strip (the (re_search p out)))"
  by (induction ps) (auto split: option.splits)

lemma first_match_none: "\<forall>p \<in> set ps. re_search p out = None \<Longrightarrow> first_match ps out = []"
  by (induction ps) auto

lemma class_facts:
  "\<not> id_char CHR 0x22" "\<not> id_char CHR 0x27" "\<not> is_space CHR '':''" "\<not> is_space CHR 0x22"
  "\<not> is_space CHR 0x27" "is_space CHR '' ''" "\<not> is_space CHR ''r''" "\<not> hex_char CHR ''-''"
  "\<not> sep_char CHR ''i''" "sep_char CHR ''_''" "\<not> is_space CHR ''=''" "assign_char CHR ''=''"
  "is_word CHR ''c''" "is_word CHR ''r''" "is_word CHR ''s''"
  by (simp_all add: id_char_def is_space_def hex_char_def sep_char_def assign_char_def is_word_def
        letters_def digits10_def)

lemma id_char_not_space: "id_char c \<Longrightarrow> \<not> is_space c"
  by (auto simp: id_char_def is_space_def letters_def digits10_def)

lemma key_char_not_space: "key_char c \<Longrightarrow> \<not> is_space c"
  by (auto simp: key_char_def is_space_def letters_def digits10_def)

lemma hex_char_not_space: "hex_char c \<Longrightarrow> \<not> is_space c"
  by (auto simp: hex_char_def is_space_def)

lemma key_char_not_assign: "key_char c \<Longrightarrow> \<not> assign_char c"
  by (auto simp: key_char_def assign_char_def letters_def digits10_def)

lemma counts_down_ge:
  "lo \<le> m \<Longrightarrow> counts_down m lo = m # (case m of 0 \<Rightarrow> [] | Suc k \<Rightarrow> counts_down k lo)"
  by (cases m) auto

lemma takeWhile_all: "\<forall>c \<in> set x. cls c \<Longrightarrow> takeWhile cls x = x"
  by (induction x) auto

lemma takeWhile_stop:
  "\<forall>c \<in> set x. cls c \<Longrightarrow> \<not> cls d \<Longrightarrow> takeWhile cls (x @ d # r) = x"
  by (induction x) auto

lemma family_sessions_path:
  assumes "ident \<noteq> []" and "\<forall>c \<in> set ident. id_char c"
  shows "re_search (session_patterns ! 2) (''/sessions/'' @ ident) = Some ident"
  using assms
  by (simp add: session_patterns_def re_search_def Let_def takeWhile_all counts_down_ge
        consume_def last_char_def Suc_le_eq)

lemma family_double_quoted:
  assumes "ident \<noteq> []" and "\<forall>c \<in> set ident. id_char c"
  shows "re_search (session_patterns ! 0)
           ([CHR 0x22] @ ''session_id'' @ [CHR 0x22] @ '': '' @ [CHR 0x22] @ ident @ [CHR 0x22])
         = Some ident"
  using assms
  by (simp add: session_patterns_def re_search_def Let_def takeWhile_stop counts_down_ge
        consume_def last_char_def Suc_le_eq class_facts)

lemma takeWhile_other_class:
  "s \<noteq> [] \<Longrightarrow> \<forall>c \<in> set s. \<not> cls c \<Longrightarrow> takeWhile cls s = []"
  by (cases s) auto

lemma id_no_space: "\<forall>c \<in> set s. id_char c \<Longrightarrow> \<forall>c \<in> set s. \<not> is_space c"
  using id_char_not_space by blast

lemma key_no_space: "\<forall>c \<in> set s. key_char c \<Longrightarrow> \<forall>c \<in> set s. \<not> is_space c"
  using key_char_not_space by blast

lemma key_no_assign: "\<forall>c \<in> set s. key_char c \<Longrightarrow> \<forall>c \<in> set s. \<not> assign_char c"
  using key_char_not_assign by blast

lemma hex_no_space: "\<forall>c \<in> set s. hex_char c \<Longrightarrow> \<forall>c \<in> set s. \<not> is_space c"
  using hex_char_not_space by blast

lemma family_single_quoted:
  assumes "ident \<noteq> []" and "\<forall>c \<in> set ident. id_char c"
  shows "re_search (session_patterns ! 1)
           ([CHR 0x27] @ ''session_id'' @ [CHR 0x27] @ '': '' @ [CHR 0x27] @ ident @ [CHR 0x27])
         = Some ident"
  using assms
  by (simp add: session_patterns_def re_search_def Let_def takeWhile_stop counts_down_ge
        consume_def last_char_def Suc_le_eq class_facts)

lemma family_codex_resume:
  assumes "ident \<noteq> []" and "\<forall>c \<in> set ident. id_char c"
  shows "re_search (session_patterns ! 3) (''codex resume '' @ ident) = Some ident"
  using assms takeWhile_other_class [OF assms(1) id_no_space [OF assms(2)]]
  by (simp add: session_patterns_def re_search_def Let_def takeWhile_all counts_down_ge
        consume_def last_char_def Suc_le_eq class_facts at_boundary_def)

lemma family_session_id_key:
  assumes "key \<noteq> []" and "\<forall>c \<in> set key. key_char c"
  shows "re_search (session_patterns ! 5) (''session_id='' @ key) = Some key"
  using assms takeWhile_other_class [OF assms(1) key_no_space [OF assms(2)]]
        takeWhile_other_class [OF assms(1) key_no_assign [OF assms(2)]]
  by (simp add: session_patterns_def re_search_def Let_def takeWhile_all counts_down_ge
        consume_def last_char_def Suc_le_eq class_facts)

lemma family_conversation_id_key:
  assumes "key \<noteq> []" and "\<forall>c \<in> set key. key_char c"
  shows "re_search (session_patterns ! 6) (''conversation_id='' @ key) = Some key"
  using assms takeWhile_other_class [OF assms(1) key_no_space [OF assms(2)]]
        takeWhile_other_class [OF assms(1) key_no_assign [OF assms(2)]]
  by (simp add: session_patterns_def re_search_def Let_def takeWhile_all counts_down_ge
        consume_def last_char_def Suc_le_eq class_facts)

lemma family_session_token:
  assumes "8 \<le> length tok" and "\<forall>c \<in> set tok. id_char c"
  shows "re_search (session_patterns ! 7) (''session '' @ tok) = Some tok"
proof -
  have ne: "tok \<noteq> []" using assms(1) by auto
  show ?thesis
    using assms takeWhile_other_class [OF ne id_no_space [OF assms(2)]]
    by (simp add: session_patterns_def re_search_def Let_def takeWhile_all counts_down_ge
          consume_def last_char_def class_facts at_boundary_def)
qed

lemma family_resume_uuid:
  assumes "length hexpart = 8" and "\<forall>c \<in> set hexpart. hex_char c"
      and "27 \<le> length rest" and "\<forall>c \<in> set rest. hex_dash_char c"
  shows "re_search (session_patterns ! 4) (''resume '' @ hexpart @ ''-'' @ rest)
           = Some (hexpart @ ''-'' @ rest)"
proof -
  have ne: "hexpart \<noteq> []" using assms(1) by auto
  have sp: "takeWhile is_space (hexpart @ CHR ''-'' # rest) = []"
    using ne hex_no_space [OF assms(2)] by (cases hexpart) auto
  show ?thesis
    using assms sp
    by (simp add: session_patterns_def re_search_def Let_def takeWhile_all takeWhile_stop
          counts_down_ge consume_def last_char_def class_facts at_boundary_def)
qed

lemma counts_down_lt: "m < lo \<Longrightarrow> counts_down m lo = []"
  by (cases m) auto

lemma match_needs_space:
  "\<forall>c \<in> set t. \<not> is_space c \<Longrightarrow>
     match_items (Lit l # Rep is_space 1 None # items) prev t cap = None"
proof -
  assume ns: "\<forall>c \<in> set t. \<not> is_space c"
  have "\<forall>c \<in> set (drop (length l) t). \<not> is_space c"
    using ns by (meson in_set_dropD)
  then have "takeWhile is_space (drop (length l) t) = []"
    by (cases "drop (length l) t") auto
  then show ?thesis by (simp add: Let_def)
qed

lemma search_needs_space:
  "\<forall>c \<in> set t. \<not> is_space c \<Longrightarrow>
     search_from (WordB # Lit l # Rep is_space 1 None # items) prev t = None"
proof (induction t arbitrary: prev)
  case Nil
  then show ?case using match_needs_space [of "[]" l items prev] by simp
next
  case (Cons c t)
  have m: "match_items (Lit l # Rep is_space 1 None # items) prev (c # t) cap = None" for cap
    using Cons.prems by (rule match_needs_space)
  have "\<forall>d \<in> set t. \<not> is_space d" using Cons.prems by simp
  then have "search_from (WordB # Lit l # Rep is_space 1 None # items) (Some c) t = None"
    by (rule Cons.IH)
  then show ?case using m by (simp del: match_items.simps(2,3))
qed

lemma char_facts:
  "is_word CHR ''e''" "is_word CHR ''i''" "is_word CHR ''o''" "is_word CHR ''n''"
  "\<not> is_word CHR '' ''" "lower_char CHR '' '' = CHR '' ''" "lower_char CHR ''s'' = CHR ''s''"
  by (simp_all add: is_word_def letters_def digits10_def upper_letters_def lower_letters_def
        lower_char_def)

lemma session_token_short:
  assumes "length tok < 8" and "\<forall>c \<in> set tok. id_char c"
  shows "re_search (session_patterns ! 7) (''session '' @ tok) = None"
proof -
  have ns: "\<forall>c \<in> set tok. \<not> is_space c" using assms(2) by (rule id_no_space)
  have sp: "takeWhile is_space tok = []"
    using ns by (cases tok) auto
  have tail: "search_from [WordB, Lit ''session'', Rep is_space 1 None, GroupOpen,
                 Rep id_char 8 None, GroupClose] (Some CHR '' '') tok = None"
    using ns by (rule search_needs_space)
  show ?thesis
    using assms sp tail
    by (simp add: session_patterns_def re_search_def Let_def takeWhile_all counts_down_ge
          counts_down_lt consume_def last_char_def class_facts char_facts at_boundary_def)
qed

lemma strip_no_space: "\<forall>c \<in> set s. \<not> is_space c \<Longrightarrow> strip s = s"
  unfolding strip_def by (cases s) (auto simp: rstrip_word)

lemma extract_double_quoted:
  assumes "ident \<noteq> []" and "\<forall>c \<in> set ident. id_char c"
  shows "extract_session_id
           ([CHR 0x22] @ ''session_id'' @ [CHR 0x22] @ '': '' @ [CHR 0x22] @ ident @ [CHR 0x22])
         = ident"
proof -
  have "first_match (session_patterns ! 0 # tl session_patterns)
          ([CHR 0x22] @ ''session_id'' @ [CHR 0x22] @ '': '' @ [CHR 0x22] @ ident @ [CHR 0x22])
        = strip ident"
    by (simp only: first_match.simps family_double_quoted [OF assms] option.case)
  moreover have "session_patterns ! 0 # tl session_patterns = session_patterns"
    by (simp add: session_patterns_def)
  ultimately show ?thesis
    using strip_no_space [OF id_no_space [OF assms(2)]]
    by (simp add: extract_session_id_def)
qed

section \<open>Claims about the session id patterns\<close>

text \<open>
  C8, as the specification states it, lists a \<open>resume <id>\<close> directive among the pattern
  families. The fourth pattern of the code asks for \<open>codex\<close> before \<open>resume\<close>, and the
  fifth for an id that starts as a UUID does, so for the output \<open>resume run-42\<close> no
  pattern matches and the result is empty, while \<open>codex resume run-42\<close> gives \<open>run-42\<close>.
\<close>

theorem bare_resume_directive_not_matched:
  "extract_session_id ''resume run-42'' = [] \<and>
   extract_session_id ''codex resume run-42'' = ''run-42''"
  by code_simp

text \<open>
  C8, amended. The result is the trimmed capture of the first pattern of
  \<open>session_patterns\<close>, in list order, that matches somewhere in the output, letter case
  ignored, and the empty text when none of the eight matches. In this order the patterns
  recognise: a double-quoted and a single-quoted \<open>session_id\<close> key with a quoted value, a
  \<open>/sessions/<id>\<close> path, a \<open>codex resume <id>\<close> directive, \<open>resume\<close> followed by
  eight hexadecimal digits, a dash and at least 27 more hexadecimal digits or dashes, a
  \<open>session_id=<id>\<close> and a \<open>conversation_id=<id>\<close> assignment, and \<open>session\<close>
  followed by a token, which matches when the token has at least 8 characters and not
  when it has fewer.
\<close>

theorem extract_session_id_first_match:
  "extract_session_id out =
     (case find (\<lambda>p. re_search p out \<noteq> None) session_patterns of
        None \<Rightarrow> [] | Some p \<Rightarrow> strip (the (re_search p out))) \<and>
   ((\<forall>p \<in> set session_patterns. re_search p out = None) \<longrightarrow> extract_session_id out = []) \<and>
   length session_patterns = 8 \<and>
   (ident \<noteq> [] \<and> (\<forall>c \<in> set ident. id_char c) \<longrightarrow>
      re_search (session_patterns ! 0)
        ([CHR 0x22] @ ''session_id'' @ [CHR 0x22] @ '': '' @ [CHR 0x22] @ ident @ [CHR 0x22])
        = Some ident \<and>
      extract_session_id
        ([CHR 0x22] @ ''session_id'' @ [CHR 0x22] @ '': '' @ [CHR 0x22] @ ident @ [CHR 0x22])
        = ident \<and>
      re_search (session_patterns ! 1)
        ([CHR 0x27] @ ''session_id'' @ [CHR 0x27] @ '': '' @ [CHR 0x27] @ ident @ [CHR 0x27])
        = Some ident \<and>
      re_search (session_patterns ! 2) (''/sessions/'' @ ident) = Some ident \<and>
      re_search (session_patterns ! 3) (''codex resume '' @ ident) = Some ident) \<and>
   (length hexpart = 8 \<and> (\<forall>c \<in> set hexpart. hex_char c) \<and>
    27 \<le> length rest \<and> (\<forall>c \<in> set rest. hex_dash_char c) \<longrightarrow>
      re_search (session_patterns ! 4) (''resume '' @ hexpart @ ''-'' @ rest)
        = Some (hexpart @ ''-'' @ rest)) \<and>
   (key \<noteq> [] \<and> (\<forall>c \<in> set key. key_char c) \<longrightarrow>
      re_search (session_patterns ! 5) (''session_id='' @ key) = Some key \<and>
      re_search (session_patterns ! 6) (''conversation_id='' @ key) = Some key) \<and>
   ((\<forall>c \<in> set tok. id_char c) \<longrightarrow>
      re_search (session_patterns ! 7) (''session '' @ tok)
        = (if 8 \<le> length tok then Some tok else None))"
proof -
  have a: "extract_session_id out =
     (case find (\<lambda>p. re_search p out \<noteq> None) session_patterns of
        None \<Rightarrow> [] | Some p \<Rightarrow> strip (the (re_search p out)))"
    unfolding extract_session_id_def by (rule first_match_find)
  have b: "(\<forall>p \<in> set session_patterns. re_search p out = None) \<longrightarrow> extract_session_id out = []"
    unfolding extract_session_id_def using first_match_none by blast
  have c: "length session_patterns = 8"
    by (simp add: session_patterns_def)
  have d: "ident \<noteq> [] \<and> (\<forall>c \<in> set ident. id_char c) \<longrightarrow>
      re_search (session_patterns ! 0)
        ([CHR 0x22] @ ''session_id'' @ [CHR 0x22] @ '': '' @ [CHR 0x22] @ ident @ [CHR 0x22])
        = Some ident \<and>
      extract_session_id
        ([CHR 0x22] @ ''session_id'' @ [CHR 0x22] @ '': '' @ [CHR 0x22] @ ident @ [CHR 0x22])
        = ident \<and>
      re_search (session_patterns ! 1)
        ([CHR 0x27] @ ''session_id'' @ [CHR 0x27] @ '': '' @ [CHR 0x27] @ ident @ [CHR 0x27])
        = Some ident \<and>
      re_search (session_patterns ! 2) (''/sessions/'' @ ident) = Some ident \<and>
      re_search (session_patterns ! 3) (''codex resume '' @ ident) = Some ident"
    using family_double_quoted extract_double_quoted family_single_quoted family_sessions_path
          family_codex_resume
    by blast
  have e: "length hexpart = 8 \<and> (\<forall>c \<in> set hexpart. hex_char c) \<and>
    27 \<le> length rest \<and> (\<forall>c \<in> set rest. hex_dash_char c) \<longrightarrow>
      re_search (session_patterns ! 4) (''resume '' @ hexpart @ ''-'' @ rest)
        = Some (hexpart @ ''-'' @ rest)"
    using family_resume_uuid by blast
  have f: "key \<noteq> [] \<and> (\<forall>c \<in> set key. key_char c) \<longrightarrow>
      re_search (session_patterns ! 5) (''session_id='' @ key) = Some key \<and>
      re_search (session_patterns ! 6) (''conversation_id='' @ key) = Some key"
    using family_session_id_key family_conversation_id_key by blast
  have g: "(\<forall>c \<in> set tok. id_char c) \<longrightarrow>
      re_search (session_patterns ! 7) (''session '' @ tok)
        = (if 8 \<le> length tok then Some tok else None)"
    using family_session_token [of tok] session_token_short [of tok] by auto
  from a b c d e f g show ?thesis by blast
qed

theorem extract_session_id_first_match_witness:
  "re_search (session_patterns ! 3) ''codex resume run-42'' = Some ''run-42'' \<and>
   extract_session_id
     ([CHR 0x22] @ ''session_id'' @ [CHR 0x22] @ '': '' @ [CHR 0x22] @ ''run-42'' @ [CHR 0x22])
     = ''run-42'' \<and>
   re_search (session_patterns ! 7) ''session 1234567'' = None"
proof -
  have i: "''run-42'' \<noteq> [] \<and> (\<forall>c \<in> set ''run-42''. id_char c)"
    by (simp add: id_char_def letters_def digits10_def)
  have t: "\<forall>c \<in> set ''1234567''. id_char c"
    by (simp add: id_char_def letters_def digits10_def)
  note th = extract_session_id_first_match [where out = "[]" and ident = "''run-42''"
              and tok = "''1234567''" and hexpart = "[]" and rest = "[]" and key = "[]"]
  from th i have one: "re_search (session_patterns ! 3) (''codex resume '' @ ''run-42'')
                         = Some ''run-42''"
    by blast
  from th i have two: "extract_session_id
     ([CHR 0x22] @ ''session_id'' @ [CHR 0x22] @ '': '' @ [CHR 0x22] @ ''run-42'' @ [CHR 0x22])
     = ''run-42''"
    by blast
  from th t have "re_search (session_patterns ! 7) (''session '' @ ''1234567'')
                    = (if 8 \<le> length ''1234567'' then Some ''1234567'' else None)"
    by blast
  then have three: "re_search (session_patterns ! 7) (''session '' @ ''1234567'') = None"
    by simp
  from one two three show ?thesis by simp
qed

end
